theory Spec2Isabelle
  imports Main "HOL-Library.Sublist"
begin

section \<open>Strings and the pure helpers of \<open>src/cache/utils.ts\<close>\<close>

text \<open>
  A JavaScript string is a sequence of UTF-16 code units, and \<open>replace\<close> with a
  regular expression without the \<open>u\<close> flag, \<open>split\<close> and \<open>trim\<close> all work code
  unit by code unit. The model writes a string as an Isabelle \<open>string\<close>: one \<open>char\<close>
  stands for one code unit, so the model covers the strings whose code units are below
  256 (ASCII and Latin-1), and \<open>length\<close> is the JavaScript \<open>length\<close>.
\<close>

definition is_alnum :: "char \<Rightarrow> bool" where
  \<comment> \<open>the character class \<open>[a-zA-Z0-9]\<close>\<close>
  "is_alnum c =
     (let n = (of_char c :: nat)
      in (97 \<le> n \<and> n \<le> 122) \<or> (65 \<le> n \<and> n \<le> 90) \<or> (48 \<le> n \<and> n \<le> 57))"

definition safeKey :: "string \<Rightarrow> string" where
  \<comment> \<open>\<open>const safeKey = key.replace(/[^a-zA-Z0-9]/g, '_')\<close> in \<open>getCacheFilePath\<close>\<close>
  "safeKey key = map (\<lambda>c. if is_alnum c then c else CHR ''_'') key"

definition newline :: char where
  "newline = CHR 0x0A"

definition is_ws :: "char \<Rightarrow> bool" where
  \<comment> \<open>what \<open>String.prototype.trim\<close> strips, among the code units below 256: TAB, LF,
      VT, FF, CR, space and the no-break space\<close>
  "is_ws c = ((of_char c :: nat) \<in> {9, 10, 11, 12, 13, 32, 160})"

definition trim :: "string \<Rightarrow> string" where
  "trim s = rev (dropWhile is_ws (rev (dropWhile is_ws s)))"

fun split_on :: "char \<Rightarrow> string \<Rightarrow> string list" where
  \<comment> \<open>\<open>s.split(sep)\<close> for a separator of one character: never the empty list\<close>
  "split_on sep [] = [[]]"
| "split_on sep (c # cs) =
     (if c = sep then [] # split_on sep cs
      else (case split_on sep cs of
              [] \<Rightarrow> [[c]]
            | l # ls \<Rightarrow> (c # l) # ls))"

fun join_with :: "string \<Rightarrow> string list \<Rightarrow> string" where
  \<comment> \<open>\<open>xs.join(sep)\<close>\<close>
  "join_with sep [] = []"
| "join_with sep [x] = x"
| "join_with sep (x # y # ys) = x @ sep @ join_with sep (y # ys)"

definition resolvePaths :: "string \<Rightarrow> string list" where
  "resolvePaths pathInput =
     filter (\<lambda>s. s \<noteq> []) (map (\<lambda>s. trim s) (split_on newline pathInput))"

subsection \<open>Node's \<open>path.join\<close> and \<open>path.dirname\<close> (POSIX)\<close>

text \<open>
  The two functions of Node's \<open>path\<close> module that the cache uses, as Node defines them
  on POSIX. \<open>normalizeString\<close> drops empty and \<open>.\<close> segments and resolves \<open>..\<close>
  against the segment before it.
\<close>

definition normalize_step :: "bool \<Rightarrow> string list \<Rightarrow> string \<Rightarrow> string list" where
  "normalize_step allowAboveRoot res seg =
     (if seg = [] \<or> seg = ''.'' then res
      else if seg = ''..'' then
        (if res \<noteq> [] \<and> last res \<noteq> ''..'' then butlast res
         else if allowAboveRoot then res @ [''..''] else res)
      else res @ [seg])"

definition normalizeString :: "string \<Rightarrow> bool \<Rightarrow> string" where
  "normalizeString p allowAboveRoot =
     join_with ''/'' (foldl (normalize_step allowAboveRoot) [] (split_on CHR ''/'' p))"

definition normalize :: "string \<Rightarrow> string" where
  "normalize p =
     (if p = [] then ''.''
      else
        let isAbsolute = (hd p = CHR ''/'');
            trailingSeparator = (last p = CHR ''/'');
            q = normalizeString p (\<not> isAbsolute)
        in if q = [] then (if isAbsolute then ''/'' else if trailingSeparator then ''./'' else ''.'')
           else (if isAbsolute then ''/'' else []) @ q @ (if trailingSeparator then ''/'' else []))"

definition path_join :: "string \<Rightarrow> string \<Rightarrow> string" where
  \<comment> \<open>\<open>path.join(a, b)\<close>: empty arguments are skipped\<close>
  "path_join a b =
     (if a = [] \<and> b = [] then ''.''
      else if a = [] then normalize b
      else if b = [] then normalize a
      else normalize (a @ ''/'' @ b))"

definition dirname :: "string \<Rightarrow> string" where
  \<comment> \<open>\<open>path.dirname(p)\<close>: the scan from the right skips trailing slashes, then the last
      segment, and cuts at the slash before it (never the one at index 0)\<close>
  "dirname p =
     (if p = [] then ''.''
      else
        let hasRoot = (hd p = CHR ''/'');
            r = dropWhile (\<lambda>c. c \<noteq> CHR ''/'') (dropWhile (\<lambda>c. c = CHR ''/'') (rev (tl p)))
        in if r = [] then (if hasRoot then ''/'' else ''.'')
           else if hasRoot \<and> length r = 1 then ''//''
           else take (length r) p)"

section \<open>The world outside the program\<close>

text \<open>
  The cache talks to the file system (\<open>fs\<close>), the environment (\<open>process.env\<close>,
  \<open>process.cwd\<close>), \<open>@actions/io\<close> (\<open>which\<close>) and \<open>@actions/exec\<close> (\<open>exec\<close>). The
  world records what these answer, and a trace of every call made, in order. A path is
  the string handed to \<open>fs\<close>; \<open>entries\<close> holds the paths for which \<open>fs.existsSync\<close>
  answers true.

  The trace also records each entry into the codec (\<open>compressWithZstd\<close>,
  \<open>decompressWithZstd\<close>) with its arguments. Logging through \<open>@actions/core\<close> only
  writes to the job log and is left out.

  What the outside does is not fixed: which directories cannot be created or written,
  which tools are installed, and what a command run by \<open>exec\<close> returns and does to the
  file system are fields of the world, and every theorem holds for all of them.
\<close>

datatype error =
    FsError string           \<comment> \<open>an exception of \<open>fs\<close>\<close>
  | ToolNotFound string      \<comment> \<open>\<open>io.which(tool, true)\<close> found nothing\<close>
  | ExecError string         \<comment> \<open>the promise of \<open>exec.exec\<close> rejected\<close>

datatype event =
    ExistsSync string
  | MkdirSync string bool                \<comment> \<open>path, \<open>recursive\<close>\<close>
  | AccessSync string
  | Which string
  | Exec string "string list"
  | Compress string "string list" int    \<comment> \<open>\<open>compressWithZstd\<close> entered\<close>
  | Decompress string string             \<comment> \<open>\<open>decompressWithZstd\<close> entered\<close>

record world =
  env_RUNNER_TOOL_CACHE :: "string option"
  env_HOME :: "string option"
  env_RUNNER_TEMP :: "string option"
  cwd :: string
  entries :: "string set"
  mkdir_denied :: "string set"    \<comment> \<open>where \<open>fs.mkdirSync\<close> throws\<close>
  write_denied :: "string set"    \<comment> \<open>where \<open>fs.accessSync(_, W_OK)\<close> throws\<close>
  tools :: "string \<Rightarrow> string option"    \<comment> \<open>what \<open>io.which\<close> finds\<close>
  processes :: "string \<Rightarrow> string list \<Rightarrow> string set \<Rightarrow> (error + int) \<times> string set"
    \<comment> \<open>what running a command does: its exit code, or a rejection, and the entries it
        leaves behind\<close>
  trace :: "event list"

type_synonym 'a prog = "world \<Rightarrow> (error + 'a) \<times> world"

definition ret :: "'a \<Rightarrow> 'a prog" where
  "ret x w = (Inr x, w)"

definition throw :: "error \<Rightarrow> 'a prog" where
  "throw e w = (Inl e, w)"

definition bind :: "'a prog \<Rightarrow> ('a \<Rightarrow> 'b prog) \<Rightarrow> 'b prog" where
  "bind m f w = (case m w of (Inl e, w') \<Rightarrow> (Inl e, w') | (Inr x, w') \<Rightarrow> f x w')"

definition try_catch :: "'a prog \<Rightarrow> (error \<Rightarrow> 'a prog) \<Rightarrow> 'a prog" where
  "try_catch m h w = (case m w of (Inl e, w') \<Rightarrow> h e w' | (Inr x, w') \<Rightarrow> (Inr x, w'))"

definition emit :: "event \<Rightarrow> world \<Rightarrow> world" where
  "emit e w = w\<lparr>trace := trace w @ [e]\<rparr>"

definition or_else :: "string option \<Rightarrow> string \<Rightarrow> string" where
  \<comment> \<open>\<open>process.env.X || d\<close>: an unset and an empty variable are both falsy\<close>
  "or_else v d = (case v of None \<Rightarrow> d | Some s \<Rightarrow> if s = [] then d else s)"

fun ancestors_from :: "string \<Rightarrow> string \<Rightarrow> string list" where
  "ancestors_from pre [] = []"
| "ancestors_from pre (c # cs) =
     (if c = CHR ''/'' \<and> pre \<noteq> [] then [pre] else []) @ ancestors_from (pre @ [c]) cs"

definition ancestors :: "string \<Rightarrow> string set" where
  \<comment> \<open>the directories above a path: its prefixes that end before a slash\<close>
  "ancestors p = set (ancestors_from [] p)"

definition existsSync :: "string \<Rightarrow> bool prog" where
  "existsSync p w = (Inr (p \<in> entries w), emit (ExistsSync p) w)"

definition mkdirSync :: "string \<Rightarrow> unit prog" where
  \<comment> \<open>\<open>fs.mkdirSync(p, { recursive: true })\<close>: creates the missing directories above
      \<open>p\<close> too, or throws and creates nothing\<close>
  "mkdirSync p w =
     (let w1 = emit (MkdirSync p True) w
      in if p \<in> mkdir_denied w then (Inl (FsError p), w1)
         else (Inr (), w1\<lparr>entries := insert p (entries w \<union> ancestors p)\<rparr>))"

definition accessSync :: "string \<Rightarrow> unit prog" where
  \<comment> \<open>\<open>fs.accessSync(p, fs.constants.W_OK)\<close>\<close>
  "accessSync p w =
     (let w1 = emit (AccessSync p) w
      in if p \<notin> entries w \<or> p \<in> write_denied w then (Inl (FsError p), w1)
         else (Inr (), w1))"

definition which :: "string \<Rightarrow> string prog" where
  \<comment> \<open>\<open>io.which(tool, true)\<close>\<close>
  "which tool w =
     (let w1 = emit (Which tool) w
      in case tools w tool of None \<Rightarrow> (Inl (ToolNotFound tool), w1) | Some p \<Rightarrow> (Inr p, w1))"

definition exec :: "string \<Rightarrow> string list \<Rightarrow> int prog" where
  \<comment> \<open>\<open>exec.exec(cmd, args)\<close>\<close>
  "exec cmd args w =
     (case processes w cmd args (entries w) of
        (r, es) \<Rightarrow> (r, (emit (Exec cmd args) w)\<lparr>entries := es\<rparr>))"

section \<open>\<open>src/cache/utils.ts\<close>\<close>

definition cacheDirOf :: "world \<Rightarrow> string" where
  \<comment> \<open>the constant \<open>cacheDir\<close> of \<open>getCacheDir\<close>\<close>
  "cacheDirOf w =
     or_else (env_RUNNER_TOOL_CACHE w) (path_join (or_else (env_HOME w) ''/tmp'') ''.local-cache'')"

definition getCacheDir :: "string prog" where
  "getCacheDir w =
     (let cacheDir = cacheDirOf w
      in bind (existsSync cacheDir) (\<lambda>ex.
           if \<not> ex then bind (mkdirSync cacheDir) (\<lambda>_. ret cacheDir)
           else ret cacheDir) w)"

definition getCacheFilePath :: "string \<Rightarrow> string prog" where
  "getCacheFilePath key =
     bind getCacheDir (\<lambda>dir. ret (path_join dir (safeKey key @ ''.tar.zst'')))"

definition cacheExists :: "string \<Rightarrow> bool prog" where
  "cacheExists key = bind (getCacheFilePath key) (\<lambda>cachePath. existsSync cachePath)"

section \<open>\<open>src/cache/compression.ts\<close>\<close>

function show_nat :: "nat \<Rightarrow> string" where
  "show_nat n =
     (if n < 10 then [char_of (48 + n)]
      else show_nat (n div 10) @ [char_of (48 + n mod 10)])"
  by pat_completeness auto
termination
  by (relation "measure (\<lambda>n. n)") auto

definition show_int :: "int \<Rightarrow> string" where
  \<comment> \<open>a whole number inside a template literal\<close>
  "show_int i = (if i < 0 then CHR ''-'' # show_nat (nat (- i)) else show_nat (nat i))"

definition compress_try :: "string \<Rightarrow> string list \<Rightarrow> int \<Rightarrow> bool prog" where
  \<comment> \<open>the \<open>try\<close> block of \<open>compressWithZstd\<close>\<close>
  "compress_try archivePath paths compressionLevel =
     bind (which ''tar'') (\<lambda>_.
     bind (try_catch (which ''zstd'') (\<lambda>err. throw err)) (\<lambda>zstdPath.
     let archiveDir = dirname archivePath in
     bind (existsSync archiveDir) (\<lambda>ex.
     bind (if \<not> ex then mkdirSync archiveDir else ret ()) (\<lambda>_.
     let fileArgs = paths;
         tarArgs = [''--use-compress-program'',
                    zstdPath @ '' -'' @ show_int compressionLevel,
                    ''-cf'', archivePath, ''-P''] @ fileArgs in
     bind (exec ''tar'' tarArgs) (\<lambda>exitCode.
     if exitCode \<noteq> 0 then ret False else ret True)))))"

definition compressWithZstd :: "string \<Rightarrow> string list \<Rightarrow> int \<Rightarrow> bool prog" where
  "compressWithZstd archivePath paths compressionLevel w =
     try_catch (compress_try archivePath paths compressionLevel) (\<lambda>err. ret False)
       (emit (Compress archivePath paths compressionLevel) w)"

definition decompress_try :: "string \<Rightarrow> string \<Rightarrow> bool prog" where
  \<comment> \<open>the \<open>try\<close> block of \<open>decompressWithZstd\<close>; \<open>targetDir1\<close> and \<open>targetDir2\<close> are
      the parameter \<open>targetDir\<close> after each of its two possible reassignments\<close>
  "decompress_try archivePath targetDir =
     bind (which ''tar'') (\<lambda>_.
     bind (try_catch (which ''zstd'') (\<lambda>err. throw err)) (\<lambda>zstdPath.
     bind (existsSync archivePath) (\<lambda>ex.
     if \<not> ex then ret False
     else
     bind (existsSync targetDir) (\<lambda>tex.
     bind (if \<not> tex
           then try_catch (bind (mkdirSync targetDir) (\<lambda>_. ret targetDir))
                  (\<lambda>err w. ret (cwd w) w)
           else ret targetDir) (\<lambda>targetDir1.
     bind (try_catch (bind (accessSync targetDir1) (\<lambda>_. ret targetDir1))
             (\<lambda>err w. ret (or_else (env_RUNNER_TEMP w) ''/tmp'') w)) (\<lambda>targetDir2.
     let tarArgs = [''--use-compress-program'', zstdPath, ''-xf'', archivePath,
                    ''-C'', targetDir2] in
     bind (exec ''tar'' tarArgs) (\<lambda>exitCode.
     if exitCode \<noteq> 0 then ret False else ret True)))))))"

definition decompressWithZstd :: "string \<Rightarrow> string \<Rightarrow> bool prog" where
  "decompressWithZstd archivePath targetDir w =
     try_catch (decompress_try archivePath targetDir) (\<lambda>err. ret False)
       (emit (Decompress archivePath targetDir) w)"

section \<open>\<open>src/cache/localCache.ts\<close>: the class \<open>LocalCache\<close>\<close>

text \<open>
  \<open>save\<close> and \<open>restore\<close> are \<open>async\<close>, and each \<open>await\<close> stands inside the \<open>try\<close>
  block: the calls happen one after the other, and a rejected promise is an exception
  raised at the \<open>await\<close>. Each operation is modelled as its \<open>try\<close> block (\<open>save_try\<close>,
  \<open>restore_try\<close>, \<open>lookup_try\<close>) under its \<open>catch\<close>.
\<close>

record restore_result =
  cacheHit :: bool
  restoredKey :: "string option"

record lookup_result =
  cacheHit :: bool
  matchedKey :: "string option"

primrec filter_exists :: "string list \<Rightarrow> string list prog" where
  \<comment> \<open>\<open>paths.filter((p) => fs.existsSync(p))\<close>\<close>
  "filter_exists [] = ret []"
| "filter_exists (p # ps) =
     bind (existsSync p) (\<lambda>ex.
     bind (filter_exists ps) (\<lambda>rest.
     ret (if ex then p # rest else rest)))"

definition save_try :: "string list \<Rightarrow> string \<Rightarrow> int \<Rightarrow> bool prog" where
  "save_try paths key compressionLevel =
     bind (filter_exists paths) (\<lambda>existingPaths.
     if length existingPaths = 0 then ret False
     else
     bind (getCacheFilePath key) (\<lambda>cachePath.
     bind (compressWithZstd cachePath existingPaths compressionLevel) (\<lambda>success.
     if success then ret True else ret False)))"

definition save :: "string list \<Rightarrow> string \<Rightarrow> int \<Rightarrow> bool prog" where
  "save paths key compressionLevel =
     try_catch (save_try paths key compressionLevel) (\<lambda>err. ret False)"

primrec restore_keys :: "string list \<Rightarrow> string \<Rightarrow> restore_result prog" where
  \<comment> \<open>the loop \<open>for (const restoreKey of restoreKeys)\<close> of \<open>restore\<close> and what follows it\<close>
  "restore_keys [] targetDir = ret \<lparr>restore_result.cacheHit = False, restoredKey = None\<rparr>"
| "restore_keys (restoreKey # rest) targetDir =
     bind (cacheExists restoreKey) (\<lambda>ex.
     if ex then
       bind (getCacheFilePath restoreKey) (\<lambda>cachePath.
       bind (decompressWithZstd cachePath targetDir) (\<lambda>success.
       if success then ret \<lparr>restore_result.cacheHit = False, restoredKey = Some restoreKey\<rparr>
       else restore_keys rest targetDir))
     else restore_keys rest targetDir)"

definition restore_try ::
  "string list \<Rightarrow> string \<Rightarrow> string list \<Rightarrow> string \<Rightarrow> restore_result prog" where
  "restore_try paths primaryKey restoreKeys targetDir =
     bind (cacheExists primaryKey) (\<lambda>ex.
     if ex then
       bind (getCacheFilePath primaryKey) (\<lambda>cachePath.
       bind (decompressWithZstd cachePath targetDir) (\<lambda>success.
       if success then ret \<lparr>restore_result.cacheHit = True, restoredKey = Some primaryKey\<rparr>
       else restore_keys restoreKeys targetDir))
     else restore_keys restoreKeys targetDir)"

definition restore ::
  "string list \<Rightarrow> string \<Rightarrow> string list \<Rightarrow> string \<Rightarrow> restore_result prog" where
  "restore paths primaryKey restoreKeys targetDir =
     try_catch (restore_try paths primaryKey restoreKeys targetDir)
       (\<lambda>err. ret \<lparr>restore_result.cacheHit = False, restoredKey = None\<rparr>)"

primrec lookup_keys :: "string list \<Rightarrow> lookup_result prog" where
  \<comment> \<open>the loop of \<open>lookup\<close> and what follows it\<close>
  "lookup_keys [] = ret \<lparr>cacheHit = False, matchedKey = None\<rparr>"
| "lookup_keys (restoreKey # rest) =
     bind (cacheExists restoreKey) (\<lambda>ex.
     if ex then ret \<lparr>cacheHit = False, matchedKey = Some restoreKey\<rparr>
     else lookup_keys rest)"

definition lookup_try :: "string \<Rightarrow> string list \<Rightarrow> lookup_result prog" where
  "lookup_try primaryKey restoreKeys =
     bind (cacheExists primaryKey) (\<lambda>ex.
     if ex then ret \<lparr>cacheHit = True, matchedKey = Some primaryKey\<rparr>
     else lookup_keys restoreKeys)"

definition lookup :: "string \<Rightarrow> string list \<Rightarrow> lookup_result prog" where
  "lookup primaryKey restoreKeys =
     try_catch (lookup_try primaryKey restoreKeys)
       (\<lambda>err. ret \<lparr>cacheHit = False, matchedKey = None\<rparr>)"

section \<open>The vocabulary of the specification\<close>

definition emits :: "event list \<Rightarrow> world \<Rightarrow> world" where
  \<comment> \<open>the world after the calls \<open>es\<close>, when none of them changes anything\<close>
  "emits es w = w\<lparr>trace := trace w @ es\<rparr>"

definition archivePath :: "world \<Rightarrow> string \<Rightarrow> string" where
  \<comment> \<open>\<open><cacheDir>/<SafeFileName(key)>.tar.zst\<close>\<close>
  "archivePath w key = path_join (cacheDirOf w) (safeKey key @ ''.tar.zst'')"

definition archived :: "world \<Rightarrow> string \<Rightarrow> bool" where
  \<comment> \<open>an archive exists for the key: \<open>CacheStore.exists(key)\<close> answers true\<close>
  "archived w key \<longleftrightarrow> fst (cacheExists key w) = Inr True"

definition cache_dir_unavailable :: "world \<Rightarrow> bool" where
  \<comment> \<open>the cache directory is missing and cannot be created\<close>
  "cache_dir_unavailable w \<longleftrightarrow>
     cacheDirOf w \<notin> entries w \<and> cacheDirOf w \<in> mkdir_denied w"

definition lookup_spec :: "(string \<Rightarrow> bool) \<Rightarrow> string \<Rightarrow> string list \<Rightarrow> lookup_result" where
  \<comment> \<open>steps 1 to 3 of \<open>lookup\<close> in the specification, over an existence test\<close>
  "lookup_spec ex primaryKey restoreKeys =
     (if ex primaryKey then \<lparr>cacheHit = True, matchedKey = Some primaryKey\<rparr>
      else \<lparr>cacheHit = False, matchedKey = find ex restoreKeys\<rparr>)"

definition probed :: "(string \<Rightarrow> bool) \<Rightarrow> string \<Rightarrow> string list \<Rightarrow> string list" where
  \<comment> \<open>the keys up to and including the first one that exists: \<open>k, r1, ..., ri\<close>\<close>
  "probed ex primaryKey restoreKeys =
     (if ex primaryKey then [primaryKey]
      else primaryKey # takeWhile (\<lambda>r. \<not> ex r) restoreKeys
             @ take 1 (dropWhile (\<lambda>r. \<not> ex r) restoreKeys))"

primrec probe_all :: "string list \<Rightarrow> world \<Rightarrow> world" where
  \<comment> \<open>the world after probing the existence of each key in turn\<close>
  "probe_all [] w = w"
| "probe_all (key # keys) w = probe_all keys (snd (cacheExists key w))"

definition attempt :: "string \<Rightarrow> string \<Rightarrow> world \<Rightarrow> bool \<times> world" where
  \<comment> \<open>the key's archive both exists and decompresses successfully into \<open>targetDir\<close>;
      resolving the path of an existing archive probes the cache directory once more\<close>
  "attempt key targetDir w =
     (let w1 = snd (cacheExists key w)
      in if archived w key
         then (case decompressWithZstd (archivePath w key) targetDir
                      (emit (ExistsSync (cacheDirOf w)) w1) of
                 (r, w2) \<Rightarrow> (r = Inr True, w2))
         else (False, w1))"

primrec first_restored :: "string list \<Rightarrow> string \<Rightarrow> world \<Rightarrow> string option \<times> world" where
  \<comment> \<open>step 2 of \<open>restore\<close> in the specification: the first key, in list order, whose
      attempt succeeds; a key whose attempt fails is skipped\<close>
  "first_restored [] targetDir w = (None, w)"
| "first_restored (key # keys) targetDir w =
     (case attempt key targetDir w of
        (True, w') \<Rightarrow> (Some key, w')
      | (False, w') \<Rightarrow> first_restored keys targetDir w')"

definition only_emits :: "(event \<Rightarrow> bool) \<Rightarrow> 'a prog \<Rightarrow> bool" where
  \<comment> \<open>every call the program makes, from any world, satisfies \<open>P\<close>\<close>
  "only_emits P m \<longleftrightarrow> (\<forall>w. \<exists>es. trace (snd (m w)) = trace w @ es \<and> list_all P es)"

definition targets :: "string \<Rightarrow> event \<Rightarrow> bool" where
  \<comment> \<open>if the call is a decompression, it is one into \<open>targetDir\<close>\<close>
  "targets targetDir e = (case e of Decompress archive dir \<Rightarrow> dir = targetDir | _ \<Rightarrow> True)"

section \<open>Example worlds\<close>

definition cached_world :: world where
  \<comment> \<open>a runner whose tool cache holds the archive of the key \<open>linux-node-abc123\<close>\<close>
  "cached_world =
     \<lparr>env_RUNNER_TOOL_CACHE = Some ''/cache'', env_HOME = Some ''/home/ci'',
      env_RUNNER_TEMP = None, cwd = ''/work'',
      entries = {''/cache'', ''/cache/linux_node_abc123.tar.zst'', ''/work'', ''/work/node_modules''},
      mkdir_denied = {}, write_denied = {},
      tools = (\<lambda>t. Some (''/usr/bin/'' @ t)),
      processes = (\<lambda>cmd args es. (Inr 0, es)),
      trace = []\<rparr>"

definition fresh_world :: world where
  \<comment> \<open>a machine with no environment set and no cache directory yet\<close>
  "fresh_world =
     \<lparr>env_RUNNER_TOOL_CACHE = None, env_HOME = None,
      env_RUNNER_TEMP = None, cwd = ''/work'',
      entries = {''/work'', ''/work/node_modules''},
      mkdir_denied = {}, write_denied = {},
      tools = (\<lambda>t. Some (''/usr/bin/'' @ t)),
      processes = (\<lambda>cmd args es. (Inr 0, es)),
      trace = []\<rparr>"

definition readonly_world :: world where
  \<comment> \<open>the tool cache is configured on a volume where no directory can be created\<close>
  "readonly_world =
     \<lparr>env_RUNNER_TOOL_CACHE = Some ''/cache'', env_HOME = Some ''/home/ci'',
      env_RUNNER_TEMP = None, cwd = ''/work'',
      entries = {''/work'', ''/work/node_modules''},
      mkdir_denied = {''/cache''}, write_denied = {},
      tools = (\<lambda>t. Some (''/usr/bin/'' @ t)),
      processes = (\<lambda>cmd args es. (Inr 0, es)),
      trace = []\<rparr>"

definition flaky_world :: world where
  \<comment> \<open>archives exist for the keys \<open>a\<close>, \<open>c\<close> and \<open>d\<close>, and only the one of \<open>d\<close>
      can be extracted\<close>
  "flaky_world =
     \<lparr>env_RUNNER_TOOL_CACHE = Some ''/cache'', env_HOME = Some ''/home/ci'',
      env_RUNNER_TEMP = None, cwd = ''/work'',
      entries = {''/cache'', ''/cache/a.tar.zst'', ''/cache/c.tar.zst'', ''/cache/d.tar.zst'',
                 ''/work''},
      mkdir_denied = {}, write_denied = {},
      tools = (\<lambda>t. Some (''/usr/bin/'' @ t)),
      processes = (\<lambda>cmd args es.
         if ''/cache/d.tar.zst'' \<in> set args then (Inr 0, insert ''/work/node_modules'' es)
         else (Inl (ExecError cmd), es)),
      trace = []\<rparr>"

definition toolless_world :: world where
  \<comment> \<open>a runner on which neither \<open>tar\<close> nor \<open>zstd\<close> is installed\<close>
  "toolless_world =
     \<lparr>env_RUNNER_TOOL_CACHE = Some ''/cache'', env_HOME = Some ''/home/ci'',
      env_RUNNER_TEMP = None, cwd = ''/work'',
      entries = {''/cache'', ''/cache/a.tar.zst'', ''/work'', ''/work/node_modules''},
      mkdir_denied = {}, write_denied = {},
      tools = (\<lambda>t. None),
      processes = (\<lambda>cmd args es. (Inl (ExecError cmd), es)),
      trace = []\<rparr>"

section \<open>Verification: the pure helpers\<close>

subsection \<open>Splitting and trimming\<close>

lemma split_on_nonempty: "split_on sep s \<noteq> []"
  by (induction s) (auto split: list.splits)

lemma join_split_on: "join_with [sep] (split_on sep s) = s"
proof (induction s)
  case Nil
  show ?case by simp
next
  case (Cons c cs)
  obtain l ls where sp: "split_on sep cs = l # ls"
    using split_on_nonempty [of sep cs] by (cases "split_on sep cs") auto
  show ?case
  proof (cases "c = sep")
    case True
    with Cons sp show ?thesis by simp
  next
    case False
    with Cons sp show ?thesis by (cases ls) auto
  qed
qed

lemma split_on_no_sep: "l \<in> set (split_on sep s) \<Longrightarrow> sep \<notin> set l"
proof (induction s arbitrary: l)
  case Nil
  then show ?case by simp
next
  case (Cons c cs)
  then show ?case
    by (cases "split_on sep cs") (auto split: if_splits)
qed

lemma trim_decompose:
  "s = takeWhile is_ws s @ trim s @ rev (takeWhile is_ws (rev (dropWhile is_ws s)))"
proof -
  have "rev (dropWhile is_ws s) =
          takeWhile is_ws (rev (dropWhile is_ws s)) @ dropWhile is_ws (rev (dropWhile is_ws s))"
    by simp
  then have "dropWhile is_ws s =
          rev (dropWhile is_ws (rev (dropWhile is_ws s))) @ rev (takeWhile is_ws (rev (dropWhile is_ws s)))"
    by (metis rev_append rev_rev_ident)
  then have "takeWhile is_ws s @ dropWhile is_ws s = takeWhile is_ws s @ trim s @ rev (takeWhile is_ws (rev (dropWhile is_ws s)))"
    unfolding trim_def by simp
  then show ?thesis by simp
qed

lemma dropWhile_all: "(\<forall>x\<in>set (dropWhile P s). P x) \<longleftrightarrow> (\<forall>x\<in>set s. P x)"
proof (cases "dropWhile P s = []")
  case True
  then have "\<forall>x\<in>set s. P x" by (simp add: dropWhile_eq_Nil_conv)
  then show ?thesis by (auto dest: set_dropWhileD)
next
  case False
  then have "\<not> P (hd (dropWhile P s))" by (rule hd_dropWhile)
  moreover from False have "hd (dropWhile P s) \<in> set (dropWhile P s)" by simp
  ultimately show ?thesis by (meson set_dropWhileD)
qed

lemma trim_empty_iff: "trim s = [] \<longleftrightarrow> list_all is_ws s"
proof -
  have "trim s = [] \<longleftrightarrow> (\<forall>x\<in>set (dropWhile is_ws s). is_ws x)"
    by (simp add: trim_def dropWhile_eq_Nil_conv)
  then show ?thesis by (simp only: dropWhile_all list_all_iff)
qed

lemma trim_hd: "trim s \<noteq> [] \<Longrightarrow> \<not> is_ws (hd (trim s))"
proof -
  assume ne: "trim s \<noteq> []"
  let ?d = "dropWhile is_ws s"
  let ?r = "dropWhile is_ws (rev ?d)"
  from ne have rne: "?r \<noteq> []" by (simp add: trim_def)
  have dne: "?d \<noteq> []"
  proof
    assume "?d = []"
    then have "?r = []" by (simp only: rev.simps dropWhile.simps)
    with rne show False by (simp only:)
  qed
  have "trim s = rev ?r" by (simp add: trim_def)
  have "rev ?d = takeWhile is_ws (rev ?d) @ ?r" by simp
  then have "?d = rev ?r @ rev (takeWhile is_ws (rev ?d))"
    by (metis rev_append rev_rev_ident)
  then have "hd ?d = hd (rev ?r)" using rne by (metis hd_append2 rev_is_Nil_conv)
  moreover have "\<not> is_ws (hd ?d)" using dne by (rule hd_dropWhile)
  ultimately show ?thesis by (simp add: trim_def)
qed

lemma trim_last: "trim s \<noteq> [] \<Longrightarrow> \<not> is_ws (last (trim s))"
proof -
  assume ne: "trim s \<noteq> []"
  let ?r = "dropWhile is_ws (rev (dropWhile is_ws s))"
  from ne have rne: "?r \<noteq> []" by (simp add: trim_def)
  then have "\<not> is_ws (hd ?r)" by (rule hd_dropWhile)
  then show ?thesis using rne by (simp add: trim_def last_rev)
qed

text \<open>
  Claim C8. \<open>resolvePaths\<close> is a total function. It splits its input at every newline
  (joining the lines with newlines gives the input back, and no line contains a
  newline), trims the whitespace around each line (a line is whitespace, its trimmed
  form, whitespace), and returns, in their order, the trimmed forms of exactly the
  lines that are not made of whitespace only. No entry of the result is empty or made
  of whitespace only: each one starts and ends with a character that is not whitespace.
\<close>

theorem resolvePaths_spec:
  "resolvePaths raw = map trim (filter (\<lambda>l. \<not> list_all is_ws l) (split_on newline raw))
   \<and> join_with [newline] (split_on newline raw) = raw
   \<and> (\<forall>l \<in> set (split_on newline raw). newline \<notin> set l)
   \<and> (\<forall>e \<in> set (resolvePaths raw). e \<noteq> [] \<and> \<not> list_all is_ws e \<and> \<not> is_ws (hd e) \<and> \<not> is_ws (last e))
   \<and> subseq (resolvePaths raw) (map trim (split_on newline raw))
   \<and> (\<forall>l. \<exists>a b. l = a @ trim l @ b \<and> list_all is_ws a \<and> list_all is_ws b)"
proof (intro conjI)
  show "resolvePaths raw = map trim (filter (\<lambda>l. \<not> list_all is_ws l) (split_on newline raw))"
    by (simp add: resolvePaths_def filter_map o_def trim_empty_iff)
  show "join_with [newline] (split_on newline raw) = raw" by (rule join_split_on)
  show "\<forall>l \<in> set (split_on newline raw). newline \<notin> set l" using split_on_no_sep by blast
  show "\<forall>e \<in> set (resolvePaths raw). e \<noteq> [] \<and> \<not> list_all is_ws e \<and> \<not> is_ws (hd e) \<and> \<not> is_ws (last e)"
  proof
    fix e assume "e \<in> set (resolvePaths raw)"
    then obtain l where e: "e = trim l" and ne: "e \<noteq> []"
      by (auto simp: resolvePaths_def)
    from ne e have h: "\<not> is_ws (hd e)" and t: "\<not> is_ws (last e)"
      using trim_hd trim_last by auto
    from h ne have "\<not> list_all is_ws e" by (cases e) auto
    with ne h t show "e \<noteq> [] \<and> \<not> list_all is_ws e \<and> \<not> is_ws (hd e) \<and> \<not> is_ws (last e)" by simp
  qed
  show "subseq (resolvePaths raw) (map trim (split_on newline raw))"
    by (simp add: resolvePaths_def)
  show "\<forall>l. \<exists>a b. l = a @ trim l @ b \<and> list_all is_ws a \<and> list_all is_ws b"
  proof
    fix l
    have "list_all is_ws (takeWhile is_ws l)"
      by (auto simp: list_all_iff dest: set_takeWhileD)
    moreover have "list_all is_ws (rev (takeWhile is_ws (rev (dropWhile is_ws l))))"
      by (auto simp: list_all_iff dest: set_takeWhileD)
    ultimately show "\<exists>a b. l = a @ trim l @ b \<and> list_all is_ws a \<and> list_all is_ws b"
      using trim_decompose [of l] by blast
  qed
qed

theorem resolvePaths_spec_witness:
  "''/b c'' \<in> set (resolvePaths [CHR '' '', CHR ''/'', CHR ''a'', newline, CHR 0x09, newline, CHR ''/'', CHR ''b'', CHR '' '', CHR ''c'', CHR 0x0D])
   \<and> resolvePaths [CHR '' '', CHR ''/'', CHR ''a'', newline, CHR 0x09, newline, CHR ''/'', CHR ''b'', CHR '' '', CHR ''c'', CHR 0x0D] = [''/a'', ''/b c'']
   \<and> \<not> list_all is_ws ''/b c''"
  using resolvePaths_spec [of "[CHR '' '', CHR ''/'', CHR ''a'', newline, CHR 0x09, newline, CHR ''/'', CHR ''b'', CHR '' '', CHR ''c'', CHR 0x0D]"]
  by (simp add: resolvePaths_def trim_def is_ws_def newline_def)

subsection \<open>The file name of a key\<close>

text \<open>
  Claim C7. The sanitised key has the length of the key; at every position it keeps a
  character of \<open>[A-Za-z0-9]\<close> and has \<open>_\<close> in place of any other, so it contains
  only characters of \<open>[A-Za-z0-9_]\<close>. Whenever \<open>getCacheFilePath\<close> returns, it
  returns the cache directory joined with the sanitised key followed by \<open>.tar.zst\<close>;
  it fails only when \<open>getCacheDir\<close> does.
\<close>

theorem safeKey_spec:
  "length (safeKey k) = length k
   \<and> (\<forall>i < length k. safeKey k ! i = (if is_alnum (k ! i) then k ! i else CHR ''_''))
   \<and> (\<forall>c \<in> set (safeKey k). is_alnum c \<or> c = CHR ''_'')
   \<and> fst (getCacheFilePath k w) =
       (case fst (getCacheDir w) of
          Inl e \<Rightarrow> Inl e
        | Inr dir \<Rightarrow> Inr (path_join dir (safeKey k @ ''.tar.zst'')))"
  by (auto simp: safeKey_def getCacheFilePath_def bind_def ret_def split: prod.splits sum.splits)

theorem safeKey_spec_witness:
  "length (safeKey ''linux-node-abc123'') = 17
   \<and> safeKey ''linux-node-abc123'' ! 5 = CHR ''_''
   \<and> fst (getCacheFilePath ''linux-node-abc123'' cached_world)
       = Inr ''/cache/linux_node_abc123.tar.zst''"
proof -
  have dir: "fst (getCacheDir cached_world) = Inr ''/cache''"
    by (simp add: cached_world_def getCacheDir_def cacheDirOf_def or_else_def bind_def
        ret_def existsSync_def emit_def Let_def)
  have name: "safeKey ''linux-node-abc123'' = ''linux_node_abc123''"
    by (simp add: safeKey_def is_alnum_def)
  have joined: "path_join ''/cache'' (''linux_node_abc123'' @ ''.tar.zst'')
                  = ''/cache/linux_node_abc123.tar.zst''"
    by (simp add: path_join_def normalize_def normalizeString_def normalize_step_def)
  have alnum: "\<not> is_alnum (''linux-node-abc123'' ! 5)"
    by (simp add: is_alnum_def)
  from safeKey_spec [of "''linux-node-abc123''" cached_world]
  have len: "length (safeKey ''linux-node-abc123'') = length ''linux-node-abc123''"
    and pos: "\<forall>i < length ''linux-node-abc123''. safeKey ''linux-node-abc123'' ! i =
           (if is_alnum (''linux-node-abc123'' ! i) then ''linux-node-abc123'' ! i else CHR ''_'')"
    and fpath: "fst (getCacheFilePath ''linux-node-abc123'' cached_world) =
       (case fst (getCacheDir cached_world) of
          Inl e \<Rightarrow> Inl e
        | Inr dir \<Rightarrow> Inr (path_join dir (safeKey ''linux-node-abc123'' @ ''.tar.zst'')))"
    by blast+
  from pos have "safeKey ''linux-node-abc123'' ! 5 =
           (if is_alnum (''linux-node-abc123'' ! 5) then ''linux-node-abc123'' ! 5 else CHR ''_'')"
    by simp
  with alnum have p5: "safeKey ''linux-node-abc123'' ! 5 = CHR ''_''"
    by (simp only: if_False)
  from fpath dir name joined
  have "fst (getCacheFilePath ''linux-node-abc123'' cached_world)
          = Inr ''/cache/linux_node_abc123.tar.zst''"
    by (simp only: sum.case)
  with len p5 show ?thesis by simp
qed

section \<open>Verification: the cache directory\<close>

lemma emit_emits: "emit e w = emits [e] w"
  by (simp add: emit_def emits_def)

lemma emits_emits [simp]: "emits es (emits es' w) = emits (es' @ es) w"
  by (simp add: emits_def)

lemma emits_fields [simp]:
  "entries (emits es w) = entries w"
  "mkdir_denied (emits es w) = mkdir_denied w"
  "write_denied (emits es w) = write_denied w"
  "tools (emits es w) = tools w"
  "processes (emits es w) = processes w"
  "cwd (emits es w) = cwd w"
  "env_RUNNER_TEMP (emits es w) = env_RUNNER_TEMP w"
  "trace (emits es w) = trace w @ es"
  "cacheDirOf (emits es w) = cacheDirOf w"
  "archivePath (emits es w) = archivePath w"
  by (simp_all add: emits_def cacheDirOf_def archivePath_def fun_eq_iff)

lemma entries_update_fields [simp]:
  "cacheDirOf (w\<lparr>entries := es\<rparr>) = cacheDirOf w"
  "archivePath (w\<lparr>entries := es\<rparr>) = archivePath w"
  by (simp_all add: cacheDirOf_def archivePath_def fun_eq_iff)

lemma emits_entries_commute:
  "emits es (w\<lparr>entries := X\<rparr>) = (emits es w)\<lparr>entries := X\<rparr>"
  by (simp add: emits_def)

lemma getCacheDir_eq:
  "getCacheDir w =
     (if cacheDirOf w \<in> entries w
      then (Inr (cacheDirOf w), emits [ExistsSync (cacheDirOf w)] w)
      else if cacheDirOf w \<in> mkdir_denied w
      then (Inl (FsError (cacheDirOf w)),
            emits [ExistsSync (cacheDirOf w), MkdirSync (cacheDirOf w) True] w)
      else (Inr (cacheDirOf w),
            (emits [ExistsSync (cacheDirOf w), MkdirSync (cacheDirOf w) True] w)
              \<lparr>entries := insert (cacheDirOf w) (entries w \<union> ancestors (cacheDirOf w))\<rparr>))"
  by (simp add: getCacheDir_def bind_def ret_def existsSync_def mkdirSync_def emit_def
      emits_def Let_def)

lemma cacheExists_eq:
  "cacheExists key w =
     (if cacheDirOf w \<in> entries w
      then (Inr (archivePath w key \<in> entries w),
            emits [ExistsSync (cacheDirOf w), ExistsSync (archivePath w key)] w)
      else if cacheDirOf w \<in> mkdir_denied w
      then (Inl (FsError (cacheDirOf w)),
            emits [ExistsSync (cacheDirOf w), MkdirSync (cacheDirOf w) True] w)
      else (Inr (archivePath w key \<in> insert (cacheDirOf w) (entries w \<union> ancestors (cacheDirOf w))),
            (emits [ExistsSync (cacheDirOf w), MkdirSync (cacheDirOf w) True,
                    ExistsSync (archivePath w key)] w)
              \<lparr>entries := insert (cacheDirOf w) (entries w \<union> ancestors (cacheDirOf w))\<rparr>))"
  by (simp add: cacheExists_def getCacheFilePath_def getCacheDir_eq bind_def ret_def
      existsSync_def emit_emits archivePath_def emits_entries_commute)

lemma default_dir: "path_join ''/tmp'' ''.local-cache'' = ''/tmp/.local-cache''"
  by (simp add: path_join_def normalize_def normalizeString_def normalize_step_def)

lemma default_dir_ancestors: "ancestors ''/tmp/.local-cache'' = {''/tmp''}"
  by (simp add: ancestors_def)

text \<open>
  Claim C10. With \<open>RUNNER_TOOL_CACHE\<close> and \<open>HOME\<close> both unset, the cache directory
  is \<open>/tmp/.local-cache\<close>. \<open>getCacheDir\<close> checks that it exists and returns it; when
  it does not exist, it first calls \<open>fs.mkdirSync\<close> on it with \<open>recursive: true\<close>,
  after which the directory and \<open>/tmp\<close> exist. Only when that call throws does
  \<open>getCacheDir\<close> not return the directory: the exception leaves it.
\<close>

theorem getCacheDir_default:
  assumes "env_RUNNER_TOOL_CACHE w = None" and "env_HOME w = None"
  shows "cacheDirOf w = ''/tmp/.local-cache''
    \<and> getCacheDir w =
       (if ''/tmp/.local-cache'' \<in> entries w
        then (Inr ''/tmp/.local-cache'', emits [ExistsSync ''/tmp/.local-cache''] w)
        else if ''/tmp/.local-cache'' \<in> mkdir_denied w
        then (Inl (FsError ''/tmp/.local-cache''),
              emits [ExistsSync ''/tmp/.local-cache'', MkdirSync ''/tmp/.local-cache'' True] w)
        else (Inr ''/tmp/.local-cache'',
              (emits [ExistsSync ''/tmp/.local-cache'', MkdirSync ''/tmp/.local-cache'' True] w)
                \<lparr>entries := insert ''/tmp/.local-cache'' (insert ''/tmp'' (entries w))\<rparr>))"
proof -
  from assms have d: "cacheDirOf w = ''/tmp/.local-cache''"
    by (simp add: cacheDirOf_def or_else_def default_dir)
  show ?thesis
    unfolding getCacheDir_eq d default_dir_ancestors
    by simp
qed

theorem getCacheDir_default_witness:
  "env_RUNNER_TOOL_CACHE fresh_world = None \<and> env_HOME fresh_world = None
   \<and> fst (getCacheDir fresh_world) = Inr ''/tmp/.local-cache''
   \<and> ''/tmp/.local-cache'' \<notin> entries fresh_world
   \<and> ''/tmp/.local-cache'' \<in> entries (snd (getCacheDir fresh_world))
   \<and> trace (snd (getCacheDir fresh_world))
       = [ExistsSync ''/tmp/.local-cache'', MkdirSync ''/tmp/.local-cache'' True]"
proof -
  have e: "env_RUNNER_TOOL_CACHE fresh_world = None" "env_HOME fresh_world = None"
    by (simp_all add: fresh_world_def)
  have f: "''/tmp/.local-cache'' \<notin> entries fresh_world"
     "''/tmp/.local-cache'' \<notin> mkdir_denied fresh_world" "trace fresh_world = []"
    by (simp_all add: fresh_world_def)
  from getCacheDir_default [OF e] f
  have "getCacheDir fresh_world = (Inr ''/tmp/.local-cache'',
              (emits [ExistsSync ''/tmp/.local-cache'', MkdirSync ''/tmp/.local-cache'' True] fresh_world)
                \<lparr>entries := insert ''/tmp/.local-cache'' (insert ''/tmp'' (entries fresh_world))\<rparr>)"
    by (simp only: if_False)
  with e f show ?thesis by simp
qed

section \<open>Verification: lookup\<close>

lemma emits_Nil [simp]: "emits [] w = w"
  by (simp add: emits_def)

lemma archived_iff:
  "archived w key \<longleftrightarrow>
     (if cacheDirOf w \<in> entries w then archivePath w key \<in> entries w
      else cacheDirOf w \<notin> mkdir_denied w
           \<and> archivePath w key \<in> insert (cacheDirOf w) (entries w \<union> ancestors (cacheDirOf w)))"
  by (simp add: archived_def cacheExists_eq)

lemma archived_emits [simp]: "archived (emits es w) = archived w"
  by (rule ext) (simp add: archived_iff)

lemma unavailable_emits [simp]: "cache_dir_unavailable (emits es w) = cache_dir_unavailable w"
  by (simp add: cache_dir_unavailable_def)

lemma cacheExists_unavailable:
  assumes "cache_dir_unavailable w"
  shows "cacheExists key w =
           (Inl (FsError (cacheDirOf w)),
            emits [ExistsSync (cacheDirOf w), MkdirSync (cacheDirOf w) True] w)"
    and "\<not> archived w key"
  using assms by (simp_all add: cache_dir_unavailable_def cacheExists_eq archived_iff)

lemma cacheExists_available:
  assumes "\<not> cache_dir_unavailable w"
  shows "fst (cacheExists key w) = Inr (archived w key)"
    and "cacheDirOf (snd (cacheExists key w)) = cacheDirOf w"
    and "archivePath (snd (cacheExists key w)) = archivePath w"
    and "cacheDirOf w \<in> entries (snd (cacheExists key w))"
    and "\<not> cache_dir_unavailable (snd (cacheExists key w))"
    and "archived (snd (cacheExists key w)) = archived w"
proof -
  show "fst (cacheExists key w) = Inr (archived w key)"
    using assms by (auto simp: cache_dir_unavailable_def cacheExists_eq archived_iff)
  show d: "cacheDirOf (snd (cacheExists key w)) = cacheDirOf w"
    by (simp add: cacheExists_eq)
  show p: "archivePath (snd (cacheExists key w)) = archivePath w"
    by (simp add: cacheExists_eq)
  show e: "cacheDirOf w \<in> entries (snd (cacheExists key w))"
    using assms by (auto simp: cache_dir_unavailable_def cacheExists_eq)
  from d e show "\<not> cache_dir_unavailable (snd (cacheExists key w))"
    by (simp add: cache_dir_unavailable_def)
  show "archived (snd (cacheExists key w)) = archived w"
  proof (rule ext)
    fix r
    have "archived (snd (cacheExists key w)) r
            \<longleftrightarrow> archivePath w r \<in> entries (snd (cacheExists key w))"
      using d e p by (simp add: archived_iff)
    also have "\<dots> \<longleftrightarrow> archived w r"
      using assms by (auto simp: cache_dir_unavailable_def cacheExists_eq archived_iff)
    finally show "archived (snd (cacheExists key w)) r = archived w r" .
  qed
qed

lemma probe_all_present:
  "cacheDirOf w \<in> entries w \<Longrightarrow>
   probe_all keys w =
     emits (concat (map (\<lambda>r. [ExistsSync (cacheDirOf w), ExistsSync (archivePath w r)]) keys)) w"
  by (induction keys arbitrary: w) (simp_all add: cacheExists_eq)

lemma lookup_keys_available:
  "\<not> cache_dir_unavailable w \<Longrightarrow>
   lookup_keys rs w =
     (Inr \<lparr>cacheHit = False, matchedKey = find (archived w) rs\<rparr>,
      probe_all (takeWhile (\<lambda>r. \<not> archived w r) rs
                 @ take 1 (dropWhile (\<lambda>r. \<not> archived w r) rs)) w)"
proof (induction rs arbitrary: w)
  case Nil
  show ?case by (simp add: ret_def)
next
  case (Cons r rs)
  obtain w1 where c: "cacheExists r w = (Inr (archived w r), w1)"
    using cacheExists_available(1) [OF Cons.prems, of r]
    by (cases "cacheExists r w") simp
  then have w1: "w1 = snd (cacheExists r w)" by simp
  show ?case
  proof (cases "archived w r")
    case True
    with c show ?thesis by (simp add: bind_def ret_def)
  next
    case False
    have av: "\<not> cache_dir_unavailable w1" and ar: "archived w1 = archived w"
      using cacheExists_available(5,6) [OF Cons.prems, of r] w1 by simp_all
    from Cons.IH [OF av] False c ar show ?thesis
      by (simp add: bind_def)
  qed
qed

lemma find_never: "find (\<lambda>_. False) xs = None"
  by (induction xs) simp_all

lemma lookup_run:
  "fst (lookup primaryKey restoreKeys w)
     = Inr (lookup_spec (archived w) primaryKey restoreKeys)
   \<and> snd (lookup primaryKey restoreKeys w)
     = (if cache_dir_unavailable w then snd (cacheExists primaryKey w)
        else probe_all (probed (archived w) primaryKey restoreKeys) w)"
proof (cases "cache_dir_unavailable w")
  case True
  then have "archived w = (\<lambda>_. False)"
    using cacheExists_unavailable(2) by (intro ext) simp
  with True show ?thesis
    by (simp add: lookup_def lookup_try_def try_catch_def bind_def ret_def
        cacheExists_unavailable(1) lookup_spec_def find_never)
next
  case False
  obtain w1 where c: "cacheExists primaryKey w = (Inr (archived w primaryKey), w1)"
    using cacheExists_available(1) [OF False, of primaryKey]
    by (cases "cacheExists primaryKey w") simp
  then have w1: "w1 = snd (cacheExists primaryKey w)" by simp
  have av: "\<not> cache_dir_unavailable w1" and ar: "archived w1 = archived w"
    using cacheExists_available(5,6) [OF False, of primaryKey] w1 by simp_all
  show ?thesis
  proof (cases "archived w primaryKey")
    case True
    with False c show ?thesis
      by (simp add: lookup_def lookup_try_def try_catch_def bind_def ret_def
          lookup_spec_def probed_def)
  next
    case nohit: False
    with False c lookup_keys_available [OF av, of restoreKeys] ar show ?thesis
      by (simp add: lookup_def lookup_try_def try_catch_def bind_def ret_def
          lookup_spec_def probed_def)
  qed
qed

text \<open>
  Claim C2. \<open>lookup\<close> returns \<open>{cacheHit: true, matchedKey: k}\<close> when an archive
  exists for the primary key \<open>k\<close>; otherwise it returns \<open>cacheHit: false\<close> with the
  first restore key, in list order, for which an archive exists, and with no key when
  there is none. The existence checks it makes are those of \<open>k, r1, ..., ri\<close> in that
  order, up to and including the first key that exists, and none after it. (When the
  cache directory is missing and cannot be created, no archive exists for any key and
  the check of \<open>k\<close> is the only one made.)
\<close>

theorem lookup_first_match:
  "fst (lookup primaryKey restoreKeys w)
     = Inr (lookup_spec (archived w) primaryKey restoreKeys)
   \<and> snd (lookup primaryKey restoreKeys w)
     = (if cache_dir_unavailable w then snd (cacheExists primaryKey w)
        else probe_all (probed (archived w) primaryKey restoreKeys) w)"
  by (rule lookup_run)

lemma cached_world_facts:
  "cacheDirOf cached_world = ''/cache''"
  "entries cached_world
     = {''/cache'', ''/cache/linux_node_abc123.tar.zst'', ''/work'', ''/work/node_modules''}"
  "mkdir_denied cached_world = {}"
  "trace cached_world = []"
  by (simp_all add: cached_world_def cacheDirOf_def or_else_def)

lemma cached_world_paths:
  "archivePath cached_world ''x'' = ''/cache/x.tar.zst''"
  "archivePath cached_world ''y'' = ''/cache/y.tar.zst''"
  "archivePath cached_world ''linux-node-abc123'' = ''/cache/linux_node_abc123.tar.zst''"
  by (simp_all add: archivePath_def cached_world_facts safeKey_def is_alnum_def path_join_def
      normalize_def normalizeString_def normalize_step_def)

lemma cached_world_archived:
  "\<not> archived cached_world ''x''"
  "\<not> archived cached_world ''y''"
  "archived cached_world ''linux-node-abc123''"
  "\<not> cache_dir_unavailable cached_world"
  by (simp_all add: archived_iff cache_dir_unavailable_def cached_world_facts cached_world_paths)

theorem lookup_first_match_witness:
  "fst (lookup ''x'' [''y'', ''linux-node-abc123'', ''z''] cached_world)
     = Inr \<lparr>cacheHit = False, matchedKey = Some ''linux-node-abc123''\<rparr>
   \<and> trace (snd (lookup ''x'' [''y'', ''linux-node-abc123'', ''z''] cached_world))
     = [ExistsSync ''/cache'', ExistsSync ''/cache/x.tar.zst'',
        ExistsSync ''/cache'', ExistsSync ''/cache/y.tar.zst'',
        ExistsSync ''/cache'', ExistsSync ''/cache/linux_node_abc123.tar.zst'']"
proof -
  have sp: "lookup_spec (archived cached_world) ''x'' [''y'', ''linux-node-abc123'', ''z'']
              = \<lparr>cacheHit = False, matchedKey = Some ''linux-node-abc123''\<rparr>"
    by (simp add: lookup_spec_def cached_world_archived)
  have pr: "probed (archived cached_world) ''x'' [''y'', ''linux-node-abc123'', ''z'']
              = [''x'', ''y'', ''linux-node-abc123'']"
    by (simp add: probed_def cached_world_archived)
  have tr: "trace (probe_all [''x'', ''y'', ''linux-node-abc123''] cached_world)
     = [ExistsSync ''/cache'', ExistsSync ''/cache/x.tar.zst'',
        ExistsSync ''/cache'', ExistsSync ''/cache/y.tar.zst'',
        ExistsSync ''/cache'', ExistsSync ''/cache/linux_node_abc123.tar.zst'']"
    by (subst probe_all_present) (simp_all add: cached_world_facts cached_world_paths)
  from lookup_first_match [of "''x''" "[''y'', ''linux-node-abc123'', ''z'']" cached_world]
  show ?thesis
    by (simp only: sp pr tr cached_world_archived if_False)
qed

lemma probe_all_frame:
  assumes "\<not> cache_dir_unavailable w"
  shows "\<exists>es. probe_all (key # keys) w =
            (emits es w)\<lparr>entries :=
               (if cacheDirOf w \<in> entries w then entries w
                else insert (cacheDirOf w) (entries w \<union> ancestors (cacheDirOf w)))\<rparr>
          \<and> (\<forall>e \<in> set es. (\<exists>p. e = ExistsSync p) \<or> e = MkdirSync (cacheDirOf w) True)"
proof -
  let ?w1 = "snd (cacheExists key w)"
  let ?tail = "concat (map (\<lambda>r. [ExistsSync (cacheDirOf w), ExistsSync (archivePath w r)]) keys)"
  have present: "cacheDirOf ?w1 \<in> entries ?w1"
    using cacheExists_available(2,4) [OF assms, of key] by simp
  have step: "probe_all (key # keys) w = emits ?tail ?w1"
    using probe_all_present [OF present, of keys] cacheExists_available(2,3) [OF assms, of key]
    by simp
  show ?thesis
  proof (cases "cacheDirOf w \<in> entries w")
    case True
    then have "probe_all (key # keys) w =
        (emits ([ExistsSync (cacheDirOf w), ExistsSync (archivePath w key)] @ ?tail) w)
          \<lparr>entries := entries w\<rparr>"
      unfolding step by (simp add: cacheExists_eq)
    with True show ?thesis by (intro exI conjI) (auto split: if_splits)
  next
    case False
    with assms have "probe_all (key # keys) w =
        (emits ([ExistsSync (cacheDirOf w), MkdirSync (cacheDirOf w) True,
                 ExistsSync (archivePath w key)] @ ?tail) w)
          \<lparr>entries := insert (cacheDirOf w) (entries w \<union> ancestors (cacheDirOf w))\<rparr>"
      unfolding step
      by (simp add: cacheExists_eq cache_dir_unavailable_def emits_entries_commute)
    with False show ?thesis by (intro exI conjI) (auto split: if_splits)
  qed
qed

text \<open>
  Claim C3, as amended. \<open>lookup\<close> never invokes the codec: every call it makes is an
  \<open>fs.existsSync\<close>, or the \<open>fs.mkdirSync\<close> of the cache directory. It leaves the file
  system unchanged when the cache directory exists (or cannot be created); when the
  cache directory is missing, \<open>lookup\<close> creates it, with the directories above it, and
  changes nothing else.
\<close>

theorem lookup_frame:
  "\<exists>es. snd (lookup primaryKey restoreKeys w) =
           (emits es w)\<lparr>entries :=
              (if cacheDirOf w \<in> entries w \<or> cacheDirOf w \<in> mkdir_denied w then entries w
               else insert (cacheDirOf w) (entries w \<union> ancestors (cacheDirOf w)))\<rparr>
         \<and> (\<forall>e \<in> set es. (\<exists>p. e = ExistsSync p) \<or> e = MkdirSync (cacheDirOf w) True)"
proof (cases "cache_dir_unavailable w")
  case True
  then have "snd (lookup primaryKey restoreKeys w) =
      (emits [ExistsSync (cacheDirOf w), MkdirSync (cacheDirOf w) True] w)\<lparr>entries := entries w\<rparr>"
    using lookup_run [of primaryKey restoreKeys w]
    by (simp add: cacheExists_unavailable(1))
  with True show ?thesis
    unfolding cache_dir_unavailable_def by (intro exI conjI) auto
next
  case False
  obtain ks where ks: "probed (archived w) primaryKey restoreKeys = primaryKey # ks"
    by (cases "archived w primaryKey") (simp_all add: probed_def)
  from probe_all_frame [OF False, of primaryKey ks] False ks
  show ?thesis
    using lookup_run [of primaryKey restoreKeys w]
    by (auto simp: cache_dir_unavailable_def)
qed

lemma fresh_world_facts:
  "cacheDirOf fresh_world = ''/tmp/.local-cache''"
  "entries fresh_world = {''/work'', ''/work/node_modules''}"
  "mkdir_denied fresh_world = {}"
  "trace fresh_world = []"
  by (simp_all add: fresh_world_def cacheDirOf_def or_else_def default_dir)

lemma fresh_world_path: "archivePath fresh_world ''k'' = ''/tmp/.local-cache/k.tar.zst''"
  by (simp add: archivePath_def fresh_world_facts safeKey_def is_alnum_def path_join_def
      normalize_def normalizeString_def normalize_step_def)

theorem lookup_frame_witness:
  "entries (snd (lookup ''x'' [''y'', ''linux-node-abc123'', ''z''] cached_world))
     = entries cached_world
   \<and> Which ''tar'' \<notin> set (trace (snd (lookup ''x'' [''y'', ''linux-node-abc123'', ''z''] cached_world)))
   \<and> MkdirSync ''/cache'' True
        \<notin> set (trace (snd (lookup ''x'' [''y'', ''linux-node-abc123'', ''z''] cached_world)))"
proof -
  let ?w = "snd (lookup ''x'' [''y'', ''linux-node-abc123'', ''z''] cached_world)"
  from lookup_frame [of "''x''" "[''y'', ''linux-node-abc123'', ''z'']" cached_world]
  obtain es where w: "?w = (emits es cached_world)\<lparr>entries := entries cached_world\<rparr>"
    and es: "\<forall>e \<in> set es. (\<exists>p. e = ExistsSync p) \<or> e = MkdirSync ''/cache'' True"
    by (auto simp: cached_world_facts)
  have "ExistsSync ''/cache'' \<in> set (trace (probe_all (probed (archived cached_world) ''x''
          [''y'', ''linux-node-abc123'', ''z'']) cached_world))"
    by (subst probe_all_present) (simp_all add: cached_world_facts probed_def cached_world_archived)
  have tr: "trace ?w = es" using w by (simp add: cached_world_facts)
  have "trace ?w = trace (probe_all (probed (archived cached_world) ''x''
          [''y'', ''linux-node-abc123'', ''z'']) cached_world)"
    using lookup_run [of "''x''" "[''y'', ''linux-node-abc123'', ''z'']" cached_world]
    by (simp add: cached_world_archived)
  also have "\<dots> = [ExistsSync ''/cache'', ExistsSync ''/cache/x.tar.zst'',
        ExistsSync ''/cache'', ExistsSync ''/cache/y.tar.zst'',
        ExistsSync ''/cache'', ExistsSync ''/cache/linux_node_abc123.tar.zst'']"
    by (subst probe_all_present)
       (simp_all add: cached_world_facts cached_world_paths probed_def cached_world_archived)
  finally have nomk: "MkdirSync ''/cache'' True \<notin> set (trace ?w)" by simp
  from es tr have "Which ''tar'' \<notin> set (trace ?w)" by auto
  with w nomk show ?thesis by simp
qed

text \<open>
  Claim C3 as first stated, that \<open>lookup\<close> leaves the file system completely
  unchanged, fails on a machine where the cache directory does not exist yet: \<open>lookup\<close>
  creates it.
\<close>

theorem lookup_creates_cache_dir:
  "''/tmp/.local-cache'' \<notin> entries fresh_world
   \<and> ''/tmp/.local-cache'' \<in> entries (snd (lookup ''k'' [] fresh_world))
   \<and> trace (snd (lookup ''k'' [] fresh_world))
       = [ExistsSync ''/tmp/.local-cache'', MkdirSync ''/tmp/.local-cache'' True,
          ExistsSync ''/tmp/.local-cache/k.tar.zst'']"
proof -
  have av: "\<not> cache_dir_unavailable fresh_world" and no: "\<not> archived fresh_world ''k''"
    by (simp_all add: cache_dir_unavailable_def archived_iff fresh_world_facts fresh_world_path
        default_dir_ancestors)
  have "snd (lookup ''k'' [] fresh_world) = snd (cacheExists ''k'' fresh_world)"
    using lookup_run [of "''k''" "[]" fresh_world] av no by (simp add: probed_def)
  then show ?thesis
    by (simp add: cacheExists_eq fresh_world_facts fresh_world_path)
qed

section \<open>Verification: restore\<close>

lemma decompress_total: "\<exists>b w'. decompressWithZstd archive targetDir w = (Inr b, w')"
  by (auto simp: decompressWithZstd_def try_catch_def ret_def split: prod.splits sum.splits)

lemma compress_total: "\<exists>b w'. compressWithZstd archive paths level w = (Inr b, w')"
  by (auto simp: compressWithZstd_def try_catch_def ret_def split: prod.splits sum.splits)

lemma getCacheFilePath_present:
  "cacheDirOf w \<in> entries w \<Longrightarrow>
   getCacheFilePath key w = (Inr (archivePath w key), emit (ExistsSync (cacheDirOf w)) w)"
  by (simp add: getCacheFilePath_def getCacheDir_eq bind_def ret_def archivePath_def emit_emits)

lemma attempt_unavailable:
  "cache_dir_unavailable w \<Longrightarrow>
   attempt key targetDir w =
     (False, emits [ExistsSync (cacheDirOf w), MkdirSync (cacheDirOf w) True] w)"
  by (simp add: attempt_def cacheExists_unavailable Let_def)

lemma attempt_step:
  "bind (cacheExists key) (\<lambda>ex.
     if ex then
       bind (getCacheFilePath key) (\<lambda>cachePath.
       bind (decompressWithZstd cachePath targetDir) (\<lambda>success.
       if success then ret hit else continue))
     else continue) w =
   (if cache_dir_unavailable w then (Inl (FsError (cacheDirOf w)), snd (cacheExists key w))
    else case attempt key targetDir w of
           (True, w') \<Rightarrow> (Inr hit, w')
         | (False, w') \<Rightarrow> continue w')"
proof (cases "cache_dir_unavailable w")
  case True
  then show ?thesis by (simp add: bind_def cacheExists_unavailable(1))
next
  case False
  obtain w1 where c: "cacheExists key w = (Inr (archived w key), w1)"
    using cacheExists_available(1) [OF False, of key] by (cases "cacheExists key w") simp
  then have w1: "snd (cacheExists key w) = w1" by simp
  show ?thesis
  proof (cases "archived w key")
    case no: False
    with False c show ?thesis by (simp add: bind_def attempt_def Let_def)
  next
    case True
    have present: "cacheDirOf w1 \<in> entries w1"
      using cacheExists_available(2,4) [OF False, of key] w1 by simp
    have p: "getCacheFilePath key w1 =
               (Inr (archivePath w key), emit (ExistsSync (cacheDirOf w)) w1)"
      using getCacheFilePath_present [OF present, of key]
        cacheExists_available(2,3) [OF False, of key] w1 by simp
    obtain b w2 where d: "decompressWithZstd (archivePath w key) targetDir
                             (emit (ExistsSync (cacheDirOf w)) w1) = (Inr b, w2)"
      using decompress_total by blast
    from False True c p d show ?thesis
      by (cases b) (simp_all add: bind_def ret_def attempt_def Let_def)
  qed
qed

lemma restore_keys_step:
  "restore_keys (key # keys) targetDir w =
     (if cache_dir_unavailable w then (Inl (FsError (cacheDirOf w)), snd (cacheExists key w))
      else case attempt key targetDir w of
             (True, w') \<Rightarrow> (Inr \<lparr>restore_result.cacheHit = False, restoredKey = Some key\<rparr>, w')
           | (False, w') \<Rightarrow> restore_keys keys targetDir w')"
  by (simp only: restore_keys.simps attempt_step)

lemma first_restored_unavailable:
  "cache_dir_unavailable w \<Longrightarrow> fst (first_restored keys targetDir w) = None"
  by (induction keys arbitrary: w) (simp_all add: attempt_unavailable)

lemma first_restored_member:
  "fst (first_restored keys targetDir w) = Some r \<Longrightarrow> r \<in> set keys"
proof (induction keys arbitrary: w)
  case Nil
  then show ?case by simp
next
  case (Cons key keys)
  obtain b w' where a: "attempt key targetDir w = (b, w')"
    by (cases "attempt key targetDir w")
  show ?case
  proof (cases b)
    case True
    with a Cons.prems show ?thesis by simp
  next
    case False
    with a Cons.prems have "fst (first_restored keys targetDir w') = Some r" by simp
    then have "r \<in> set keys" by (rule Cons.IH)
    then show ?thesis by simp
  qed
qed

text \<open>
  The key that \<open>first_restored\<close> returns splits the list: every key before it was
  attempted, in order, and failed; its own attempt succeeded; no key after it was
  attempted.
\<close>

lemma first_restored_Some:
  "first_restored keys targetDir w = (Some r, w') \<Longrightarrow>
   \<exists>before after wb. keys = before @ r # after
      \<and> first_restored before targetDir w = (None, wb)
      \<and> attempt r targetDir wb = (True, w')"
proof (induction keys arbitrary: w)
  case Nil
  then show ?case by simp
next
  case (Cons key keys)
  obtain b w1 where a: "attempt key targetDir w = (b, w1)"
    by (cases "attempt key targetDir w")
  show ?case
  proof (cases b)
    case True
    with a Cons.prems have "r = key" "w1 = w'" by simp_all
    with a True have "key # keys = [] @ r # keys
        \<and> first_restored [] targetDir w = (None, w) \<and> attempt r targetDir w = (True, w')"
      by simp
    then show ?thesis by blast
  next
    case False
    with a Cons.prems have "first_restored keys targetDir w1 = (Some r, w')" by simp
    from Cons.IH [OF this] obtain before after wb where
      "keys = before @ r # after" "first_restored before targetDir w1 = (None, wb)"
      "attempt r targetDir wb = (True, w')" by blast
    with a False have "key # keys = (key # before) @ r # after
        \<and> first_restored (key # before) targetDir w = (None, wb)
        \<and> attempt r targetDir wb = (True, w')"
      by simp
    then show ?thesis by blast
  qed
qed

lemma restore_keys_result:
  "(case fst (restore_keys keys targetDir w) of
      Inl e \<Rightarrow> \<lparr>restore_result.cacheHit = False, restoredKey = None\<rparr>
    | Inr r \<Rightarrow> r)
   = \<lparr>restore_result.cacheHit = False, restoredKey = fst (first_restored keys targetDir w)\<rparr>"
proof (induction keys arbitrary: w)
  case Nil
  show ?case by (simp add: ret_def)
next
  case (Cons key keys)
  show ?case
  proof (cases "cache_dir_unavailable w")
    case True
    then show ?thesis
      using first_restored_unavailable [OF True, of "key # keys" targetDir]
      by (simp only: restore_keys_step) simp
  next
    case False
    obtain b w' where a: "attempt key targetDir w = (b, w')"
      by (cases "attempt key targetDir w")
    show ?thesis
    proof (cases b)
      case True
      with False a show ?thesis by (simp only: restore_keys_step) simp
    next
      case no: False
      with False a Cons.IH [of w'] show ?thesis by (simp only: restore_keys_step) simp
    qed
  qed
qed

lemma fst_try_catch_ret:
  "fst (try_catch m (\<lambda>err. ret v) w) = Inr (case fst (m w) of Inl e \<Rightarrow> v | Inr x \<Rightarrow> x)"
  by (simp add: try_catch_def ret_def split: prod.splits sum.splits)

lemma restore_try_step:
  "restore_try paths primaryKey restoreKeys targetDir w =
     (if cache_dir_unavailable w
      then (Inl (FsError (cacheDirOf w)), snd (cacheExists primaryKey w))
      else case attempt primaryKey targetDir w of
             (True, w') \<Rightarrow>
               (Inr \<lparr>restore_result.cacheHit = True, restoredKey = Some primaryKey\<rparr>, w')
           | (False, w') \<Rightarrow> restore_keys restoreKeys targetDir w')"
  by (simp only: restore_try_def attempt_step)

lemma restore_run:
  "(case attempt primaryKey targetDir w of
      (True, w') \<Rightarrow>
        restore paths primaryKey restoreKeys targetDir w =
          (Inr \<lparr>restore_result.cacheHit = True, restoredKey = Some primaryKey\<rparr>, w')
    | (False, w') \<Rightarrow>
        fst (restore paths primaryKey restoreKeys targetDir w) =
          Inr \<lparr>restore_result.cacheHit = False,
               restoredKey = fst (first_restored restoreKeys targetDir w')\<rparr>)"
proof (cases "cache_dir_unavailable w")
  case True
  have "cache_dir_unavailable
          (emits [ExistsSync (cacheDirOf w), MkdirSync (cacheDirOf w) True] w)"
    using True by simp
  then have "fst (first_restored restoreKeys targetDir
          (emits [ExistsSync (cacheDirOf w), MkdirSync (cacheDirOf w) True] w)) = None"
    by (rule first_restored_unavailable)
  with True show ?thesis
    by (simp add: attempt_unavailable restore_def fst_try_catch_ret restore_try_step)
next
  case False
  obtain b w' where a: "attempt primaryKey targetDir w = (b, w')"
    by (cases "attempt primaryKey targetDir w")
  show ?thesis
  proof (cases b)
    case True
    with False a show ?thesis
      by (simp add: restore_def try_catch_def restore_try_step)
  next
    case no: False
    with False a restore_keys_result [of restoreKeys targetDir w'] show ?thesis
      by (simp add: restore_def fst_try_catch_ret restore_try_step)
  qed
qed

text \<open>
  Claim C1. When the archive of the primary key exists and decompresses successfully,
  \<open>restore\<close> returns \<open>{cacheHit: true, restoredKey: primaryKey}\<close> and stops there: the
  world it leaves is the one right after that decompression, whatever the restore keys
  are, so none of them is consulted. Otherwise it returns \<open>cacheHit: false\<close> with the
  first restore key, in list order, whose archive both exists and decompresses
  successfully (a key whose archive is missing or fails to decompress is skipped), and
  with no key when no attempt succeeds.
\<close>

theorem restore_first_success:
  "(case attempt primaryKey targetDir w of
      (True, w') \<Rightarrow>
        restore paths primaryKey restoreKeys targetDir w =
          (Inr \<lparr>restore_result.cacheHit = True, restoredKey = Some primaryKey\<rparr>, w')
    | (False, w') \<Rightarrow>
        fst (restore paths primaryKey restoreKeys targetDir w) =
          Inr \<lparr>restore_result.cacheHit = False,
               restoredKey = fst (first_restored restoreKeys targetDir w')\<rparr>)"
  by (rule restore_run)

theorem restore_first_success_witness:
  "restore [''node_modules''] ''linux-node-abc123'' [''x''] ''/work'' cached_world
     = (Inr \<lparr>restore_result.cacheHit = True, restoredKey = Some ''linux-node-abc123''\<rparr>,
        snd (attempt ''linux-node-abc123'' ''/work'' cached_world))
   \<and> fst (restore [''node_modules''] ''a'' [''b'', ''c'', ''d'', ''e''] ''/work'' flaky_world)
     = Inr \<lparr>restore_result.cacheHit = False, restoredKey = Some ''d''\<rparr>"
proof -
  have hit: "fst (attempt ''linux-node-abc123'' ''/work'' cached_world) = True"
    by code_simp
  have miss: "fst (attempt ''a'' ''/work'' flaky_world) = False"
    by code_simp
  have later: "fst (first_restored [''b'', ''c'', ''d'', ''e''] ''/work''
                  (snd (attempt ''a'' ''/work'' flaky_world))) = Some ''d''"
    by code_simp
  have 1: "restore [''node_modules''] ''linux-node-abc123'' [''x''] ''/work'' cached_world
     = (Inr \<lparr>restore_result.cacheHit = True, restoredKey = Some ''linux-node-abc123''\<rparr>,
        snd (attempt ''linux-node-abc123'' ''/work'' cached_world))"
    using restore_first_success [where primaryKey = "''linux-node-abc123''"
        and targetDir = "''/work''" and w = cached_world and paths = "[''node_modules'']"
        and restoreKeys = "[''x'']"] hit
    by (cases "attempt ''linux-node-abc123'' ''/work'' cached_world") simp
  have 2: "fst (restore [''node_modules''] ''a'' [''b'', ''c'', ''d'', ''e''] ''/work'' flaky_world)
     = Inr \<lparr>restore_result.cacheHit = False, restoredKey = Some ''d''\<rparr>"
    using restore_first_success [where primaryKey = "''a''"
        and targetDir = "''/work''" and w = flaky_world and paths = "[''node_modules'']"
        and restoreKeys = "[''b'', ''c'', ''d'', ''e'']"] miss later
    by (cases "attempt ''a'' ''/work'' flaky_world") simp
  from 1 2 show ?thesis by (rule conjI)
qed

text \<open>
  Claim C4. \<open>lookup\<close> and \<open>restore\<close> always return a result. Its \<open>cacheHit\<close> is true
  exactly when the primary key matched and the action succeeded: for \<open>lookup\<close>, when an
  archive exists for the primary key; for \<open>restore\<close>, when that archive exists and
  decompresses successfully. A hit carries the primary key, and a key returned without a
  hit is a fallback key taken from the restore-key list.
\<close>

theorem hit_iff_primary:
  "(\<exists>r. fst (lookup primaryKey restoreKeys w) = Inr r
        \<and> (lookup_result.cacheHit r \<longleftrightarrow> archived w primaryKey)
        \<and> (lookup_result.cacheHit r \<longrightarrow> matchedKey r = Some primaryKey)
        \<and> (\<forall>k. matchedKey r = Some k \<and> \<not> lookup_result.cacheHit r \<longrightarrow> k \<in> set restoreKeys))
   \<and> (\<exists>r. fst (restore paths primaryKey restoreKeys targetDir w) = Inr r
        \<and> (restore_result.cacheHit r \<longleftrightarrow> fst (attempt primaryKey targetDir w))
        \<and> (restore_result.cacheHit r \<longrightarrow> restoredKey r = Some primaryKey)
        \<and> (\<forall>k. restoredKey r = Some k \<and> \<not> restore_result.cacheHit r \<longrightarrow> k \<in> set restoreKeys))"
proof (rule conjI)
  have "fst (lookup primaryKey restoreKeys w)
          = Inr (lookup_spec (archived w) primaryKey restoreKeys)"
    using lookup_run by blast
  then show "\<exists>r. fst (lookup primaryKey restoreKeys w) = Inr r
        \<and> (lookup_result.cacheHit r \<longleftrightarrow> archived w primaryKey)
        \<and> (lookup_result.cacheHit r \<longrightarrow> matchedKey r = Some primaryKey)
        \<and> (\<forall>k. matchedKey r = Some k \<and> \<not> lookup_result.cacheHit r \<longrightarrow> k \<in> set restoreKeys)"
    by (auto simp: lookup_spec_def find_Some_iff)
next
  obtain b w' where a: "attempt primaryKey targetDir w = (b, w')"
    by (cases "attempt primaryKey targetDir w")
  show "\<exists>r. fst (restore paths primaryKey restoreKeys targetDir w) = Inr r
        \<and> (restore_result.cacheHit r \<longleftrightarrow> fst (attempt primaryKey targetDir w))
        \<and> (restore_result.cacheHit r \<longrightarrow> restoredKey r = Some primaryKey)
        \<and> (\<forall>k. restoredKey r = Some k \<and> \<not> restore_result.cacheHit r \<longrightarrow> k \<in> set restoreKeys)"
  proof (cases b)
    case True
    with a restore_run [where primaryKey = primaryKey and targetDir = targetDir and w = w
        and paths = paths and restoreKeys = restoreKeys] show ?thesis by simp
  next
    case False
    with a restore_run [where primaryKey = primaryKey and targetDir = targetDir and w = w
        and paths = paths and restoreKeys = restoreKeys]
    have "fst (restore paths primaryKey restoreKeys targetDir w) =
          Inr \<lparr>restore_result.cacheHit = False,
               restoredKey = fst (first_restored restoreKeys targetDir w')\<rparr>" by simp
    with a False show ?thesis by (auto dest: first_restored_member)
  qed
qed

theorem hit_iff_primary_witness:
  "fst (restore [] ''a'' [''b'', ''c'', ''d'', ''e''] ''/work'' flaky_world)
     = Inr \<lparr>restore_result.cacheHit = False, restoredKey = Some ''d''\<rparr>
   \<and> \<not> fst (attempt ''a'' ''/work'' flaky_world)
   \<and> ''d'' \<in> set [''b'', ''c'', ''d'', ''e'']
   \<and> fst (lookup ''linux-node-abc123'' [''x''] cached_world)
     = Inr \<lparr>cacheHit = True, matchedKey = Some ''linux-node-abc123''\<rparr>
   \<and> archived cached_world ''linux-node-abc123''"
proof -
  have r: "fst (restore [] ''a'' [''b'', ''c'', ''d'', ''e''] ''/work'' flaky_world)
     = Inr \<lparr>restore_result.cacheHit = False, restoredKey = Some ''d''\<rparr>"
    by code_simp
  have l: "fst (lookup ''linux-node-abc123'' [''x''] cached_world)
     = Inr \<lparr>cacheHit = True, matchedKey = Some ''linux-node-abc123''\<rparr>"
    by code_simp
  from hit_iff_primary [of "''linux-node-abc123''" "[''x'']" cached_world
      "[]" "''/work''"] l
  have a: "archived cached_world ''linux-node-abc123''" by auto
  from hit_iff_primary [of "''a''" "[''b'', ''c'', ''d'', ''e'']" flaky_world
      "[]" "''/work''"] r
  have "\<not> fst (attempt ''a'' ''/work'' flaky_world) \<and> ''d'' \<in> set [''b'', ''c'', ''d'', ''e'']"
    by auto
  with r l a show ?thesis by simp
qed

subsection \<open>What restore calls\<close>

lemma only_emitsI:
  "(\<And>w. \<exists>es. trace (snd (m w)) = trace w @ es \<and> list_all P es) \<Longrightarrow> only_emits P m"
  by (simp add: only_emits_def)

lemma only_emits_ret: "only_emits P (ret x)"
  by (simp add: only_emits_def ret_def)

lemma only_emits_throw: "only_emits P (throw e)"
  by (simp add: only_emits_def throw_def)

lemma only_emits_read: "only_emits P (\<lambda>w. ret (f w) w)"
  by (simp add: only_emits_def ret_def)

lemma only_emits_if:
  "only_emits P a \<Longrightarrow> only_emits P b \<Longrightarrow> only_emits P (if c then a else b)"
  by simp

lemma only_emits_bind:
  assumes m: "only_emits P m" and f: "\<And>x. only_emits P (f x)"
  shows "only_emits P (bind m f)"
proof (rule only_emitsI)
  fix w
  obtain r w1 where mw: "m w = (r, w1)" by (cases "m w")
  from m obtain es where es: "trace w1 = trace w @ es" "list_all P es"
    using mw unfolding only_emits_def by (metis snd_conv)
  show "\<exists>es. trace (snd (bind m f w)) = trace w @ es \<and> list_all P es"
  proof (cases r)
    case (Inl e)
    with mw es show ?thesis by (auto simp: bind_def)
  next
    case (Inr x)
    from f [of x] obtain es' where es': "trace (snd (f x w1)) = trace w1 @ es'" "list_all P es'"
      unfolding only_emits_def by blast
    with Inr mw es have "trace (snd (bind m f w)) = trace w @ (es @ es')" "list_all P (es @ es')"
      by (simp_all add: bind_def)
    then show ?thesis by blast
  qed
qed

lemma only_emits_try_catch:
  assumes m: "only_emits P m" and h: "\<And>e. only_emits P (h e)"
  shows "only_emits P (try_catch m h)"
proof (rule only_emitsI)
  fix w
  obtain r w1 where mw: "m w = (r, w1)" by (cases "m w")
  from m obtain es where es: "trace w1 = trace w @ es" "list_all P es"
    using mw unfolding only_emits_def by (metis snd_conv)
  show "\<exists>es. trace (snd (try_catch m h w)) = trace w @ es \<and> list_all P es"
  proof (cases r)
    case (Inr x)
    with mw es show ?thesis by (auto simp: try_catch_def)
  next
    case (Inl e)
    from h [of e] obtain es' where es': "trace (snd (h e w1)) = trace w1 @ es'" "list_all P es'"
      unfolding only_emits_def by blast
    with Inl mw es have "trace (snd (try_catch m h w)) = trace w @ (es @ es')"
      "list_all P (es @ es')"
      by (simp_all add: try_catch_def)
    then show ?thesis by blast
  qed
qed

lemma only_emits_after_emit:
  assumes "P e" and "only_emits P m"
  shows "only_emits P (\<lambda>w. m (emit e w))"
proof (rule only_emitsI)
  fix w
  from assms(2) obtain es where "trace (snd (m (emit e w))) = trace (emit e w) @ es" "list_all P es"
    unfolding only_emits_def by blast
  with assms(1) have "trace (snd (m (emit e w))) = trace w @ (e # es)" "list_all P (e # es)"
    by (simp_all add: emit_def)
  then show "\<exists>es. trace (snd (m (emit e w))) = trace w @ es \<and> list_all P es" by blast
qed

lemma only_emits_prims:
  "P (ExistsSync p) \<Longrightarrow> only_emits P (existsSync p)"
  "P (MkdirSync p True) \<Longrightarrow> only_emits P (mkdirSync p)"
  "P (AccessSync p) \<Longrightarrow> only_emits P (accessSync p)"
  "P (Which tool) \<Longrightarrow> only_emits P (which tool)"
  "P (Exec cmd args) \<Longrightarrow> only_emits P (exec cmd args)"
  by (auto simp: only_emits_def existsSync_def mkdirSync_def accessSync_def which_def exec_def
      emit_def Let_def split: option.splits prod.splits)

lemma targets_simps [simp]:
  "targets t (ExistsSync p)" "targets t (MkdirSync p b)" "targets t (AccessSync p)"
  "targets t (Which tool)" "targets t (Exec cmd args)" "targets t (Compress a ps l)"
  "targets t (Decompress a d) \<longleftrightarrow> d = t"
  by (simp_all add: targets_def)

lemma only_emits_decompress: "only_emits (targets t) (decompressWithZstd archive t)"
proof -
  have "only_emits (targets t) (decompress_try archive t)"
    unfolding decompress_try_def Let_def
    by (intro only_emits_bind only_emits_try_catch only_emits_prims only_emits_ret
        only_emits_throw only_emits_read only_emits_if targets_simps)
  then have "only_emits (targets t)
      (try_catch (decompress_try archive t) (\<lambda>err. ret False))"
    by (intro only_emits_try_catch only_emits_ret)
  then have "only_emits (targets t) (\<lambda>w. try_catch (decompress_try archive t) (\<lambda>err. ret False)
      (emit (Decompress archive t) w))"
    by (intro only_emits_after_emit) simp_all
  then show ?thesis by (simp add: decompressWithZstd_def [abs_def])
qed

lemma only_emits_getCacheDir: "only_emits (targets t) getCacheDir"
  by (rule only_emitsI) (simp add: getCacheDir_eq)

lemma only_emits_getCacheFilePath: "only_emits (targets t) (getCacheFilePath key)"
  unfolding getCacheFilePath_def
  by (intro only_emits_bind only_emits_getCacheDir only_emits_ret)

lemma only_emits_cacheExists: "only_emits (targets t) (cacheExists key)"
  unfolding cacheExists_def
  by (intro only_emits_bind only_emits_getCacheFilePath only_emits_prims targets_simps)

lemma only_emits_restore_keys: "only_emits (targets t) (restore_keys keys t)"
proof (induction keys)
  case Nil
  show ?case by (simp add: only_emits_ret)
next
  case (Cons key keys)
  show ?case
    unfolding restore_keys.simps
    by (intro only_emits_bind only_emits_if only_emits_cacheExists only_emits_getCacheFilePath
        only_emits_decompress only_emits_ret Cons.IH)
qed

lemma only_emits_restore: "only_emits (targets t) (restore paths primaryKey restoreKeys t)"
  unfolding restore_def restore_try_def
  by (intro only_emits_try_catch only_emits_bind only_emits_if only_emits_cacheExists
      only_emits_getCacheFilePath only_emits_decompress only_emits_ret only_emits_restore_keys)

text \<open>
  Claim C9. The \<open>paths\<close> argument of \<open>restore\<close> has no influence: two calls that
  differ only in \<open>paths\<close> return the same result and leave the same world, so they make
  the same calls in the same order (existence checks and decompressions included).
  Every decompression \<open>restore\<close> invokes is invoked with \<open>targetDir\<close> as its target.
\<close>

theorem restore_ignores_paths:
  "restore paths1 primaryKey restoreKeys targetDir w
     = restore paths2 primaryKey restoreKeys targetDir w
   \<and> (\<exists>es. trace (snd (restore paths1 primaryKey restoreKeys targetDir w)) = trace w @ es
         \<and> (\<forall>archive dir. Decompress archive dir \<in> set es \<longrightarrow> dir = targetDir))"
proof (rule conjI)
  show "restore paths1 primaryKey restoreKeys targetDir w
          = restore paths2 primaryKey restoreKeys targetDir w"
    by (simp add: restore_def restore_try_def)
  from only_emits_restore [of targetDir paths1 primaryKey restoreKeys]
  obtain es where es: "trace (snd (restore paths1 primaryKey restoreKeys targetDir w)) = trace w @ es"
    and all: "list_all (targets targetDir) es"
    unfolding only_emits_def by blast
  have "\<forall>archive dir. Decompress archive dir \<in> set es \<longrightarrow> dir = targetDir"
  proof (intro allI impI)
    fix archive dir
    assume "Decompress archive dir \<in> set es"
    with all have "targets targetDir (Decompress archive dir)" by (auto simp: list_all_iff)
    then show "dir = targetDir" by simp
  qed
  with es show "\<exists>es. trace (snd (restore paths1 primaryKey restoreKeys targetDir w)) = trace w @ es
         \<and> (\<forall>archive dir. Decompress archive dir \<in> set es \<longrightarrow> dir = targetDir)"
    by blast
qed

theorem restore_ignores_paths_witness:
  "restore [''/etc''] ''a'' [''b'', ''c'', ''d'', ''e''] ''/work'' flaky_world
     = restore [''node_modules'', ''/tmp''] ''a'' [''b'', ''c'', ''d'', ''e''] ''/work'' flaky_world
   \<and> Decompress ''/cache/d.tar.zst'' ''/work''
        \<in> set (trace (snd (restore [''/etc''] ''a'' [''b'', ''c'', ''d'', ''e''] ''/work'' flaky_world)))
   \<and> Decompress ''/cache/d.tar.zst'' ''/etc''
        \<notin> set (trace (snd (restore [''/etc''] ''a'' [''b'', ''c'', ''d'', ''e''] ''/work'' flaky_world)))"
proof -
  let ?w = "snd (restore [''/etc''] ''a'' [''b'', ''c'', ''d'', ''e''] ''/work'' flaky_world)"
  from restore_ignores_paths [of "[''/etc'']" "''a''" "[''b'', ''c'', ''d'', ''e'']" "''/work''"
      flaky_world "[''node_modules'', ''/tmp'']"]
  obtain es where eq: "restore [''/etc''] ''a'' [''b'', ''c'', ''d'', ''e''] ''/work'' flaky_world
     = restore [''node_modules'', ''/tmp''] ''a'' [''b'', ''c'', ''d'', ''e''] ''/work'' flaky_world"
    and es: "trace ?w = trace flaky_world @ es"
    and tg: "\<forall>archive dir. Decompress archive dir \<in> set es \<longrightarrow> dir = ''/work''"
    by blast
  have "trace flaky_world = []" by (simp add: flaky_world_def)
  with es tg have no: "Decompress ''/cache/d.tar.zst'' ''/etc'' \<notin> set (trace ?w)"
    by auto
  have yes: "Decompress ''/cache/d.tar.zst'' ''/work'' \<in> set (trace ?w)"
    by code_simp
  from eq yes no show ?thesis by blast
qed

section \<open>Verification: save\<close>

lemma filter_exists_eq:
  "filter_exists paths w =
     (Inr (filter (\<lambda>p. p \<in> entries w) paths), emits (map ExistsSync paths) w)"
proof (induction paths arbitrary: w)
  case Nil
  show ?case by (simp add: ret_def)
next
  case (Cons p ps)
  show ?case
    by (simp add: bind_def ret_def existsSync_def emit_emits Cons.IH)
qed

lemma getCacheFilePath_eq:
  "getCacheFilePath key w =
     (if cache_dir_unavailable w then (Inl (FsError (cacheDirOf w)), snd (getCacheDir w))
      else (Inr (archivePath w key), snd (getCacheDir w)))"
  by (simp add: getCacheFilePath_def getCacheDir_eq bind_def ret_def archivePath_def
      cache_dir_unavailable_def)

lemma save_run:
  "save paths key compressionLevel w =
     (let existingPaths = filter (\<lambda>p. p \<in> entries w) paths;
          w1 = emits (map ExistsSync paths) w
      in if existingPaths = [] then (Inr False, w1)
         else if cache_dir_unavailable w then (Inr False, snd (getCacheDir w1))
         else compressWithZstd (archivePath w key) existingPaths compressionLevel
                (snd (getCacheDir w1)))"
proof -
  let ?ex = "filter (\<lambda>p. p \<in> entries w) paths"
  let ?w1 = "emits (map ExistsSync paths) w"
  let ?w2 = "snd (getCacheDir ?w1)"
  show ?thesis
  proof (cases "?ex = []")
    case True
    then show ?thesis
      by (simp add: save_def save_try_def try_catch_def bind_def ret_def filter_exists_eq)
  next
    case False
    show ?thesis
    proof (cases "cache_dir_unavailable w")
      case True
      with False show ?thesis
        by (simp add: save_def save_try_def try_catch_def bind_def ret_def filter_exists_eq
            getCacheFilePath_eq)
    next
      case av: False
      obtain b w3 where c: "compressWithZstd (archivePath w key) ?ex compressionLevel ?w2
                              = (Inr b, w3)"
        using compress_total by blast
      with False av show ?thesis
        by (cases b)
           (simp_all add: save_def save_try_def try_catch_def bind_def ret_def filter_exists_eq
            getCacheFilePath_eq)
    qed
  qed
qed

text \<open>
  Claim C6, as amended. \<open>save\<close> checks each supplied path with \<open>fs.existsSync\<close>, in
  order, and keeps the ones that exist. When none exists it returns false having made
  no other call, so the codec is not invoked. When at least one exists and the cache
  directory exists or can be created, \<open>save\<close> invokes the codec once, on the archive
  path of the key, the existing paths only and the given level, and its outcome is
  exactly the codec's. When the cache directory is missing and cannot be created,
  \<open>save\<close> returns false and the codec is not invoked.
\<close>

theorem save_archives_existing:
  "save paths key compressionLevel w =
     (let existingPaths = filter (\<lambda>p. p \<in> entries w) paths;
          w1 = emits (map ExistsSync paths) w
      in if existingPaths = [] then (Inr False, w1)
         else if cache_dir_unavailable w then (Inr False, snd (getCacheDir w1))
         else compressWithZstd (archivePath w key) existingPaths compressionLevel
                (snd (getCacheDir w1)))"
  by (rule save_run)

theorem save_archives_existing_witness:
  "fst (save [''/work/node_modules'', ''/work/dist''] ''linux-node-abc123'' 3 cached_world) = Inr True
   \<and> trace (snd (save [''/work/node_modules'', ''/work/dist''] ''linux-node-abc123'' 3 cached_world))
       = [ExistsSync ''/work/node_modules'', ExistsSync ''/work/dist'', ExistsSync ''/cache'',
          Compress ''/cache/linux_node_abc123.tar.zst'' [''/work/node_modules''] 3,
          Which ''tar'', Which ''zstd'', ExistsSync ''/cache'',
          Exec ''tar'' [''--use-compress-program'', ''/usr/bin/zstd -3'', ''-cf'',
                        ''/cache/linux_node_abc123.tar.zst'', ''-P'', ''/work/node_modules'']]
   \<and> save [''/nowhere'', ''/work/dist''] ''linux-node-abc123'' 3 cached_world
       = (Inr False, emits [ExistsSync ''/nowhere'', ExistsSync ''/work/dist''] cached_world)"
proof -
  have ex1: "filter (\<lambda>p. p \<in> entries cached_world) [''/work/node_modules'', ''/work/dist'']
               = [''/work/node_modules'']"
    and ex2: "filter (\<lambda>p. p \<in> entries cached_world) [''/nowhere'', ''/work/dist''] = []"
    by (simp_all add: cached_world_facts)
  have c: "fst (compressWithZstd (archivePath cached_world ''linux-node-abc123'')
                  [''/work/node_modules''] 3
                  (snd (getCacheDir (emits (map ExistsSync [''/work/node_modules'', ''/work/dist''])
                                        cached_world)))) = Inr True"
    by code_simp
  have t: "trace (snd (compressWithZstd (archivePath cached_world ''linux-node-abc123'')
                  [''/work/node_modules''] 3
                  (snd (getCacheDir (emits (map ExistsSync [''/work/node_modules'', ''/work/dist''])
                                        cached_world)))))
       = [ExistsSync ''/work/node_modules'', ExistsSync ''/work/dist'', ExistsSync ''/cache'',
          Compress ''/cache/linux_node_abc123.tar.zst'' [''/work/node_modules''] 3,
          Which ''tar'', Which ''zstd'', ExistsSync ''/cache'',
          Exec ''tar'' [''--use-compress-program'', ''/usr/bin/zstd -3'', ''-cf'',
                        ''/cache/linux_node_abc123.tar.zst'', ''-P'', ''/work/node_modules'']]"
    by code_simp
  have 1: "save [''/work/node_modules'', ''/work/dist''] ''linux-node-abc123'' 3 cached_world
      = compressWithZstd (archivePath cached_world ''linux-node-abc123'')
                  [''/work/node_modules''] 3
                  (snd (getCacheDir (emits (map ExistsSync [''/work/node_modules'', ''/work/dist''])
                                        cached_world)))"
    using save_archives_existing [of "[''/work/node_modules'', ''/work/dist'']"
        "''linux-node-abc123''" 3 cached_world]
    by (simp only: Let_def ex1 cached_world_archived list.distinct if_False)
  have 2: "save [''/nowhere'', ''/work/dist''] ''linux-node-abc123'' 3 cached_world
       = (Inr False, emits [ExistsSync ''/nowhere'', ExistsSync ''/work/dist''] cached_world)"
    using save_archives_existing [of "[''/nowhere'', ''/work/dist'']"
        "''linux-node-abc123''" 3 cached_world]
    by (simp only: Let_def ex2 list.map simp_thms if_True)
  from 1 2 c t show ?thesis by simp
qed

text \<open>
  Claim C6 as first stated, that \<open>save\<close> returns the codec's success value whenever a
  supplied path exists, fails where the cache directory cannot be created: a supplied
  path exists, yet \<open>save\<close> returns false without invoking the codec, the exception of
  \<open>getCacheFilePath\<close> having been turned into false.
\<close>

theorem save_without_codec:
  "''/work/node_modules'' \<in> entries readonly_world
   \<and> fst (save [''/work/node_modules''] ''k'' 3 readonly_world) = Inr False
   \<and> trace (snd (save [''/work/node_modules''] ''k'' 3 readonly_world))
       = [ExistsSync ''/work/node_modules'', ExistsSync ''/cache'', MkdirSync ''/cache'' True]"
  by code_simp

section \<open>Verification: the operation boundary\<close>

lemma compress_without_tar:
  "tools w ''tar'' = None \<Longrightarrow> fst (compressWithZstd archive paths level w) = Inr False"
  by (simp add: compressWithZstd_def compress_try_def try_catch_def bind_def ret_def which_def
      emit_def Let_def)

lemma tools_getCacheDir: "tools (snd (getCacheDir w)) = tools w"
  by (simp add: getCacheDir_eq)

lemma save_unavailable:
  "cache_dir_unavailable w \<Longrightarrow> fst (save paths key level w) = Inr False"
  by (simp add: save_run Let_def)

lemma restore_unavailable:
  assumes "cache_dir_unavailable w"
  shows "fst (restore paths primaryKey restoreKeys targetDir w)
           = Inr \<lparr>restore_result.cacheHit = False, restoredKey = None\<rparr>"
  using assms
  by (simp add: restore_def fst_try_catch_ret restore_try_step)

lemma lookup_unavailable:
  assumes "cache_dir_unavailable w"
  shows "fst (lookup primaryKey restoreKeys w) = Inr \<lparr>cacheHit = False, matchedKey = None\<rparr>"
proof -
  from assms have "archived w = (\<lambda>_. False)"
    using cacheExists_unavailable(2) by (intro ext) simp
  then show ?thesis
    using lookup_run [of primaryKey restoreKeys w] by (simp add: lookup_spec_def find_never)
qed

text \<open>
  Claim C5. \<open>save\<close>, \<open>restore\<close> and \<open>lookup\<close> always return a value and never an
  exception. Whenever the body of one of them raises, the operation returns its normal
  failure value: false for \<open>save\<close>, \<open>{cacheHit: false}\<close> with no key for \<open>restore\<close> and
  \<open>lookup\<close>. In particular this is what they return when the cache directory is
  missing and cannot be created, and \<open>save\<close> returns false when the codec fails for
  want of \<open>tar\<close>.
\<close>

theorem no_exception_escapes:
  "(\<exists>b. fst (save paths key level w) = Inr b)
   \<and> (\<exists>r. fst (restore paths key restoreKeys targetDir w) = Inr r)
   \<and> (\<exists>r. fst (lookup key restoreKeys w) = Inr r)
   \<and> (\<forall>e. fst (save_try paths key level w) = Inl e
          \<longrightarrow> fst (save paths key level w) = Inr False)
   \<and> (\<forall>e. fst (restore_try paths key restoreKeys targetDir w) = Inl e
          \<longrightarrow> fst (restore paths key restoreKeys targetDir w)
                = Inr \<lparr>restore_result.cacheHit = False, restoredKey = None\<rparr>)
   \<and> (\<forall>e. fst (lookup_try key restoreKeys w) = Inl e
          \<longrightarrow> fst (lookup key restoreKeys w) = Inr \<lparr>cacheHit = False, matchedKey = None\<rparr>)
   \<and> (cache_dir_unavailable w
          \<longrightarrow> fst (save paths key level w) = Inr False
            \<and> fst (restore paths key restoreKeys targetDir w)
                = Inr \<lparr>restore_result.cacheHit = False, restoredKey = None\<rparr>
            \<and> fst (lookup key restoreKeys w) = Inr \<lparr>cacheHit = False, matchedKey = None\<rparr>)
   \<and> (tools w ''tar'' = None \<longrightarrow> fst (save paths key level w) = Inr False)"
proof (intro conjI allI impI)
  show "\<exists>b. fst (save paths key level w) = Inr b"
    by (simp add: save_def fst_try_catch_ret)
  show "\<exists>r. fst (restore paths key restoreKeys targetDir w) = Inr r"
    by (simp add: restore_def fst_try_catch_ret)
  show "\<exists>r. fst (lookup key restoreKeys w) = Inr r"
    by (simp add: lookup_def fst_try_catch_ret)
next
  fix e assume "fst (save_try paths key level w) = Inl e"
  then show "fst (save paths key level w) = Inr False"
    by (simp add: save_def fst_try_catch_ret)
next
  fix e assume "fst (restore_try paths key restoreKeys targetDir w) = Inl e"
  then show "fst (restore paths key restoreKeys targetDir w)
                = Inr \<lparr>restore_result.cacheHit = False, restoredKey = None\<rparr>"
    by (simp add: restore_def fst_try_catch_ret)
next
  fix e assume "fst (lookup_try key restoreKeys w) = Inl e"
  then show "fst (lookup key restoreKeys w) = Inr \<lparr>cacheHit = False, matchedKey = None\<rparr>"
    by (simp add: lookup_def fst_try_catch_ret)
next
  assume u: "cache_dir_unavailable w"
  from u show "fst (save paths key level w) = Inr False" by (rule save_unavailable)
  from u show "fst (restore paths key restoreKeys targetDir w)
                = Inr \<lparr>restore_result.cacheHit = False, restoredKey = None\<rparr>"
    by (rule restore_unavailable)
  from u show "fst (lookup key restoreKeys w) = Inr \<lparr>cacheHit = False, matchedKey = None\<rparr>"
    by (rule lookup_unavailable)
next
  assume "tools w ''tar'' = None"
  then have "tools (snd (getCacheDir (emits (map ExistsSync paths) w))) ''tar'' = None"
    by (simp add: tools_getCacheDir)
  then show "fst (save paths key level w) = Inr False"
    by (simp add: save_run Let_def compress_without_tar)
qed

theorem no_exception_escapes_witness:
  "fst (save_try [''/work/node_modules''] ''k'' 3 readonly_world) = Inl (FsError ''/cache'')
   \<and> fst (save [''/work/node_modules''] ''k'' 3 readonly_world) = Inr False
   \<and> fst (restore_try [] ''k'' [''r''] ''/work'' readonly_world) = Inl (FsError ''/cache'')
   \<and> fst (restore [] ''k'' [''r''] ''/work'' readonly_world)
       = Inr \<lparr>restore_result.cacheHit = False, restoredKey = None\<rparr>
   \<and> fst (lookup_try ''k'' [''r''] readonly_world) = Inl (FsError ''/cache'')
   \<and> fst (lookup ''k'' [''r''] readonly_world) = Inr \<lparr>cacheHit = False, matchedKey = None\<rparr>
   \<and> tools toolless_world ''tar'' = None
   \<and> fst (save [''/work/node_modules''] ''k'' 3 toolless_world) = Inr False"
proof -
  have s: "fst (save_try [''/work/node_modules''] ''k'' 3 readonly_world) = Inl (FsError ''/cache'')"
    by code_simp
  have r: "fst (restore_try [] ''k'' [''r''] ''/work'' readonly_world) = Inl (FsError ''/cache'')"
    by code_simp
  have l: "fst (lookup_try ''k'' [''r''] readonly_world) = Inl (FsError ''/cache'')"
    by code_simp
  have t: "tools toolless_world ''tar'' = None"
    by (simp add: toolless_world_def)
  from no_exception_escapes [of "[''/work/node_modules'']" "''k''" 3 readonly_world "[''r'']"
      "''/work''"] s
  have s': "fst (save [''/work/node_modules''] ''k'' 3 readonly_world) = Inr False"
    by blast
  from no_exception_escapes [of "[]" "''k''" 3 readonly_world "[''r'']" "''/work''"] r l
  have rl: "fst (restore [] ''k'' [''r''] ''/work'' readonly_world)
       = Inr \<lparr>restore_result.cacheHit = False, restoredKey = None\<rparr>"
    "fst (lookup ''k'' [''r''] readonly_world) = Inr \<lparr>cacheHit = False, matchedKey = None\<rparr>"
    by blast+
  from no_exception_escapes [of "[''/work/node_modules'']" "''k''" 3 toolless_world "[]"
      "''/work''"] t
  have t': "fst (save [''/work/node_modules''] ''k'' 3 toolless_world) = Inr False"
    by blast
  from s s' r rl l t t' show ?thesis by simp
qed

end
